theory Spec2Isabelle
  imports Main "HOL-Library.AList"
begin

section \<open>JavaScript values\<close>

text \<open>
  The client of \<^verbatim>\<open>src/MCPClient.ts\<close> is embedded as pure functions over an explicit
  state. Three kinds of JavaScript containers occur in the class:
  \<^item> a \<^verbatim>\<open>Map\<close> (\<^verbatim>\<open>sessions\<close>, \<^verbatim>\<open>toolServerMap\<close>) is an association list in
    insertion order: \<^verbatim>\<open>set\<close> is \<^const>\<open>AList.update\<close> (an existing key keeps its
    place, a new key goes to the end), \<^verbatim>\<open>delete\<close> is \<^const>\<open>AList.delete\<close>,
    \<^verbatim>\<open>get\<close> is \<^const>\<open>map_of\<close>;
  \<^item> an array of strings (\<^verbatim>\<open>activeSessions\<close>) is a list;
  \<^item> a plain object used as a dictionary (\<^verbatim>\<open>config.mcpServers\<close>) is the list of its
    own properties in the order \<^verbatim>\<open>Object.keys\<close> enumerates them, together with
    its prototype, through which a read by name also passes.

  Optional fields and \<^verbatim>\<open>undefined\<close> are \<open>option\<close> values, and every test the source
  makes on truthiness is written out: the empty string, \<^verbatim>\<open>0\<close>, \<^verbatim>\<open>NaN\<close> and
  \<^verbatim>\<open>undefined\<close> are falsy, every object and array is truthy.

  Every method runs to completion before the next one starts, and the state changes
  only through the methods of the class: what a caller does to the objects that the
  methods hand out (the configuration object, the \<^verbatim>\<open>sessions\<close> map, a session) is
  outside the model.
\<close>

type_synonym json = string

text \<open>
  A \<^verbatim>\<open>number\<close> is an integer or \<^verbatim>\<open>NaN\<close>. Timeouts are counts of milliseconds; the
  values of the type left out are all truthy (fractions, infinities) or behave as zero
  (negative zero).
\<close>

datatype number = Num int | NaN

fun truthy_number :: "number option \<Rightarrow> bool" where
  "truthy_number None = False"
| "truthy_number (Some NaN) = False"
| "truthy_number (Some (Num n)) = (n \<noteq> 0)"

fun truthy_string :: "string option \<Rightarrow> bool" where
  "truthy_string None = False"
| "truthy_string (Some s) = (s \<noteq> [])"

subsection \<open>Property order of a plain object\<close>

text \<open>
  \<^verbatim>\<open>Object.keys\<close> lists the array-index keys first, in ascending numeric order, and
  then the other string keys in the order they were created. An array index is the
  canonical decimal numeral of an integer below \<open>2^32 - 1\<close>.
\<close>

definition is_digit :: "char \<Rightarrow> bool" where
  "is_digit c = (c \<in> set ''0123456789'')"

definition index_value :: "string \<Rightarrow> nat" where
  "index_value s = foldl (\<lambda>n c. 10 * n + (of_char c - 48)) 0 s"

definition is_array_index :: "string \<Rightarrow> bool" where
  "is_array_index s =
     (s \<noteq> [] \<and> list_all is_digit s \<and> (s = ''0'' \<or> hd s \<noteq> CHR ''0'')
      \<and> index_value s < 4294967295)"

fun obj_insert :: "string \<Rightarrow> 'v \<Rightarrow> (string \<times> 'v) list \<Rightarrow> (string \<times> 'v) list" where
  "obj_insert k v [] = [(k, v)]"
| "obj_insert k v (p # ps) =
     (if is_array_index k \<and> (\<not> is_array_index (fst p) \<or> index_value k < index_value (fst p))
      then (k, v) # p # ps
      else p # obj_insert k v ps)"

definition obj_set :: "string \<Rightarrow> 'v \<Rightarrow> (string \<times> 'v) list \<Rightarrow> (string \<times> 'v) list" where
  "obj_set k v ps =
     (if k \<in> fst ` set ps then AList.update k v ps else obj_insert k v ps)"

section \<open>Configuration\<close>

record MCPServerConfig =
  type :: "string option"
  command :: "string option"
  args :: "string list option"
  env :: "(string \<times> string) list option"
  url :: "string option"
  ws_url :: "string option"

record MCPConfig =
  mcpServers :: "(string \<times> MCPServerConfig) list option"
  mcpServers_proto :: "MCPServerConfig option"

subsection \<open>Reading a property of the servers object\<close>

text \<open>
  \<^verbatim>\<open>mcpServers\<close> holds the own properties of the servers object, in the order of
  \<^verbatim>\<open>Object.keys\<close>. The source reads the object with \<^verbatim>\<open>servers[serverName]\<close>, which
  also finds what the object inherits. Its prototype is \<^verbatim>\<open>Object.prototype\<close>
  (\<open>mcpServers_proto = None\<close>) until an assignment to the name \<^verbatim>\<open>__proto__\<close> runs the
  setter that \<^verbatim>\<open>Object.prototype\<close> has for that name and puts the assigned descriptor
  in its place (\<open>mcpServers_proto = Some\<close> descriptor). A read then goes through the own
  properties, the fields of that descriptor and the members of \<^verbatim>\<open>Object.prototype\<close>, and
  what it finds need not be a descriptor:
  \<^item> \<open>Descriptor\<close>: an own property, or the prototype descriptor itself, which the getter
    of \<^verbatim>\<open>__proto__\<close> returns;
  \<^item> \<open>Text\<close>, \<open>Args\<close>, \<open>Env\<close>: a field of the prototype descriptor, a string, the array
    \<^verbatim>\<open>args\<close> or the record \<^verbatim>\<open>env\<close>;
  \<^item> \<open>Builtin\<close>: a member of \<^verbatim>\<open>Object.prototype\<close>, a function or (for \<^verbatim>\<open>__proto__\<close>)
    \<^verbatim>\<open>Object.prototype\<close> itself.
\<close>

datatype property =
    Descriptor MCPServerConfig
  | Text string
  | Args "string list"
  | Env "(string \<times> string) list"
  | Builtin

definition Object_prototype :: "string list" where
  "Object_prototype =
     [''constructor'', ''__defineGetter__'', ''__defineSetter__'', ''hasOwnProperty'',
      ''__lookupGetter__'', ''__lookupSetter__'', ''isPrototypeOf'', ''propertyIsEnumerable'',
      ''toString'', ''valueOf'', ''__proto__'', ''toLocaleString'']"

definition descriptor_get :: "MCPServerConfig \<Rightarrow> string \<Rightarrow> property option" where
  "descriptor_get cfg k =
     (if k = ''type'' then map_option Text (type cfg)
      else if k = ''command'' then map_option Text (command cfg)
      else if k = ''args'' then map_option Args (args cfg)
      else if k = ''env'' then map_option Env (env cfg)
      else if k = ''url'' then map_option Text (url cfg)
      else if k = ''ws_url'' then map_option Text (ws_url cfg)
      else None)"

definition servers_get ::
  "(string \<times> MCPServerConfig) list \<Rightarrow> MCPServerConfig option \<Rightarrow> string \<Rightarrow> property option" where
  "servers_get own proto k =
     (case map_of own k of
        Some cfg \<Rightarrow> Some (Descriptor cfg)
      | None \<Rightarrow>
          (case (case proto of None \<Rightarrow> None | Some p \<Rightarrow> descriptor_get p k) of
             Some v \<Rightarrow> Some v
           | None \<Rightarrow>
               if k = ''__proto__''
               then Some (case proto of None \<Rightarrow> Builtin | Some p \<Rightarrow> Descriptor p)
               else if k \<in> set Object_prototype then Some Builtin
               else None))"

fun truthy_property :: "property option \<Rightarrow> bool" where
  "truthy_property None = False"
| "truthy_property (Some (Text s)) = (s \<noteq> [])"
| "truthy_property (Some _) = True"

section \<open>The SDK boundary\<close>

text \<open>
  The transports and the protocol client come from the SDK. Their constructors are
  datatype constructors here; a client object carries a number that stands for its
  identity, its \<^verbatim>\<open>{name, version}\<close> and the transport it was connected to.
\<close>

datatype transport =
    StdioClientTransport string "string list" "(string \<times> string) list option"
  | StdioClientTransport_of_strings string string "string option"
  | SSEClientTransport string
  | StreamableHTTPClientTransport string
  | WebSocketClientTransport string

datatype MCPClientSDK =
  MCPClientSDK (ident: nat) (client_name: string) (client_version: string)
    (connected_to: transport)

record tool =
  name :: string
  description :: "string option"
  inputSchema :: json

text \<open>
  What the world outside answers is a parameter of every operation: whether
  \<^verbatim>\<open>new URL(s)\<close> accepts a string, whether \<^verbatim>\<open>connect\<close> and \<^verbatim>\<open>close\<close> resolve
  (\<open>None\<close>) or reject (\<open>Some\<close> reason), what \<^verbatim>\<open>listTools\<close> and \<^verbatim>\<open>callTool\<close> of a
  session answer, and what reading and parsing a configuration file yields.
\<close>

record sdk =
  new_URL :: "string \<Rightarrow> bool"
  sdk_connect :: "MCPClientSDK \<Rightarrow> string option"
  sdk_close :: "MCPClientSDK \<Rightarrow> string option"
  sdk_listTools :: "MCPClientSDK \<Rightarrow> string + tool list"
  sdk_callTool :: "MCPClientSDK \<Rightarrow> string \<Rightarrow> json \<Rightarrow> number \<Rightarrow> string + json"
  read_config :: "string \<Rightarrow> string + MCPConfig"

text \<open>
  Every \<^verbatim>\<open>throw\<close> of the source, and every failure that comes from outside. The source
  throws plain \<^verbatim>\<open>Error\<close> objects that differ in their message only; there is one
  constructor for each message:
  \<^item> \<open>NoServersDefined\<close>: \<^verbatim>\<open>No MCP servers defined in config\<close>;
  \<^item> \<open>ServerNotInConfig\<close>: \<^verbatim>\<open>Server '...' not found in config\<close>;
  \<^item> \<open>NoSessionExists\<close>: \<^verbatim>\<open>No session exists for server '...'\<close>;
  \<^item> \<open>CannotDetermineTransport\<close>: \<^verbatim>\<open>Cannot determine transport type from config: ...\<close>;
  \<^item> \<open>NoSessionFound\<close>: \<^verbatim>\<open>No session found for server '...'\<close>;
  \<^item> \<open>NoServerForTool\<close>: \<^verbatim>\<open>No server found for tool '...'\<close>;
  \<^item> \<open>InvalidURL\<close>: the \<^verbatim>\<open>TypeError\<close> of \<^verbatim>\<open>new URL\<close>;
  \<^item> \<open>Rejected\<close>: whatever the SDK or the file system raised.

  The specification sorts them into kinds: its \<^verbatim>\<open>NotFoundError\<close> covers the errors about
  a missing server, session or tool, its \<^verbatim>\<open>ConfigurationError\<close> the one of the transport
  selector.
\<close>

datatype error =
    NoServersDefined
  | ServerNotInConfig string
  | NoSessionExists string
  | CannotDetermineTransport
  | NoSessionFound string
  | NoServerForTool string
  | InvalidURL string
  | Rejected string

text \<open>The calls made to SDK sessions, and the lines written to the console.\<close>

datatype sdk_call =
    Connect MCPClientSDK
  | Close MCPClientSDK
  | ListTools MCPClientSDK
  | CallTool MCPClientSDK string json number

datatype console_line =
    Warn_no_session string
  | Debug_closing string
  | Error_closing string string
  | Error_failed_to_close string
  | Error_encountered nat
  | Debug_all_closed

section \<open>The client\<close>

record MCPClient =
  config :: MCPConfig
  sessions :: "(string \<times> MCPClientSDK) list"
  activeSessions :: "string list"
  toolServerMap :: "(string \<times> string) list"
  maxToolTimeout :: number

record world = MCPClient +
  calls :: "sdk_call list"
  console :: "console_line list"

definition constructor ::
  "sdk \<Rightarrow> (string + MCPConfig) option \<Rightarrow> number option \<Rightarrow> error + world" where
  "constructor sdk configPathOrObject timeout =
     (let loaded =
        (case configPathOrObject of
           None \<Rightarrow> Inr \<lparr>mcpServers = None, mcpServers_proto = None\<rparr>
         | Some (Inl p) \<Rightarrow>
             (if p = [] then Inr \<lparr>mcpServers = None, mcpServers_proto = None\<rparr>
              else (case read_config sdk p of
                      Inl reason \<Rightarrow> Inl (Rejected reason)
                    | Inr cfg \<Rightarrow> Inr cfg))
         | Some (Inr cfg) \<Rightarrow> Inr cfg)
      in case loaded of
           Inl e \<Rightarrow> Inl e
         | Inr cfg \<Rightarrow>
             Inr \<lparr>config = cfg, sessions = [], activeSessions = [], toolServerMap = [],
                  maxToolTimeout =
                    (case timeout of
                       Some t \<Rightarrow> (if truthy_number (Some t) then t else Num 10000)
                     | None \<Rightarrow> Num 10000),
                  calls = [], console = []\<rparr>)"

definition fromObject :: "sdk \<Rightarrow> MCPConfig \<Rightarrow> error + world" where
  "fromObject sdk cfg = constructor sdk (Some (Inr cfg)) None"

definition fromConfigFile :: "sdk \<Rightarrow> string \<Rightarrow> error + world" where
  "fromConfigFile sdk filepath = constructor sdk (Some (Inl filepath)) None"

definition servers_of :: "world \<Rightarrow> (string \<times> MCPServerConfig) list" where
  "servers_of w = (case mcpServers (config w) of None \<Rightarrow> [] | Some ps \<Rightarrow> ps)"

text \<open>
  \<^verbatim>\<open>this.config.mcpServers[name] = serverConfig\<close>: an own property of that name is
  overwritten; otherwise the name \<^verbatim>\<open>__proto__\<close> reaches the inherited setter, which
  replaces the prototype and adds no property; every other name becomes a new own
  property. When there was no servers object, the assignment is made to a new \<^verbatim>\<open>{}\<close>.
\<close>

definition addServer :: "string \<Rightarrow> MCPServerConfig \<Rightarrow> world \<Rightarrow> world" where
  "addServer n serverConfig w =
     (let c = (case mcpServers (config w) of
                 None \<Rightarrow> (config w)\<lparr>mcpServers := Some [], mcpServers_proto := None\<rparr>
               | Some _ \<Rightarrow> config w)
      in if n = ''__proto__'' \<and> n \<notin> fst ` set (servers_of w)
         then w\<lparr>config := c\<lparr>mcpServers_proto := Some serverConfig\<rparr>\<rparr>
         else w\<lparr>config := c\<lparr>mcpServers := Some (obj_set n serverConfig (servers_of w))\<rparr>\<rparr>)"

text \<open>
  \<^verbatim>\<open>removeServer\<close> tests \<^verbatim>\<open>this.config.mcpServers[name]\<close>, which may be inherited, and
  then deletes the own property of that name, if there is one.
\<close>

definition removeServer :: "string \<Rightarrow> world \<Rightarrow> world" where
  "removeServer n w =
     (let w1 =
        (case mcpServers (config w) of
           None \<Rightarrow> w
         | Some ps \<Rightarrow>
             if truthy_property (servers_get ps (mcpServers_proto (config w)) n)
             then w\<lparr>config := (config w)\<lparr>mcpServers := Some (AList.delete n ps)\<rparr>\<rparr>
             else w)
      in w1\<lparr>activeSessions := remove1 n (activeSessions w1)\<rparr>)"

definition getServerNames :: "world \<Rightarrow> string list" where
  "getServerNames w = map fst (servers_of w)"

text \<open>
  The guards of \<^verbatim>\<open>createTransport\<close> are the truthiness tests of the source, in its
  order. The case distinction inside a branch only names the fields that the guard has
  found; its other alternative is never taken.
\<close>

definition createTransport :: "sdk \<Rightarrow> MCPServerConfig \<Rightarrow> error + transport" where
  "createTransport sdk cfg =
     (if truthy_string (command cfg) \<and> args cfg \<noteq> None then
        (case (command cfg, args cfg) of
           (Some c, Some a) \<Rightarrow> Inr (StdioClientTransport c a (env cfg))
         | _ \<Rightarrow> Inl CannotDetermineTransport)
      else if truthy_string (url cfg) \<and> type cfg = Some ''sse'' then
        (case url cfg of
           Some u \<Rightarrow> (if new_URL sdk u then Inr (SSEClientTransport u) else Inl (InvalidURL u))
         | None \<Rightarrow> Inl CannotDetermineTransport)
      else if truthy_string (url cfg) \<and> type cfg = Some ''streamable-http'' then
        (case url cfg of
           Some u \<Rightarrow>
             (if new_URL sdk u then Inr (StreamableHTTPClientTransport u) else Inl (InvalidURL u))
         | None \<Rightarrow> Inl CannotDetermineTransport)
      else if truthy_string (ws_url cfg) then
        (case ws_url cfg of
           Some u \<Rightarrow>
             (if new_URL sdk u then Inr (WebSocketClientTransport u) else Inl (InvalidURL u))
         | None \<Rightarrow> Inl CannotDetermineTransport)
      else Inl CannotDetermineTransport)"

text \<open>
  \<^verbatim>\<open>createSession\<close> hands whatever the read has found to \<^verbatim>\<open>createTransport\<close>, which
  reads the fields \<^verbatim>\<open>command\<close>, \<^verbatim>\<open>args\<close>, \<^verbatim>\<open>env\<close>, \<^verbatim>\<open>url\<close>, \<^verbatim>\<open>type\<close> and \<^verbatim>\<open>ws_url\<close>
  of it. A string, an array and a member of \<^verbatim>\<open>Object.prototype\<close> have none of them. An
  \<^verbatim>\<open>env\<close> record has those that are among its keys, all of them strings: its \<^verbatim>\<open>args\<close>
  and \<^verbatim>\<open>env\<close> then reach the stdio transport as strings.
\<close>

definition createTransport_of :: "sdk \<Rightarrow> property \<Rightarrow> error + transport" where
  "createTransport_of sdk v =
     (case v of
        Descriptor cfg \<Rightarrow> createTransport sdk cfg
      | Env e \<Rightarrow>
          (if truthy_string (map_of e ''command'') \<and> truthy_string (map_of e ''args'') then
             (case (map_of e ''command'', map_of e ''args'') of
                (Some c, Some a) \<Rightarrow> Inr (StdioClientTransport_of_strings c a (map_of e ''env''))
              | _ \<Rightarrow> Inl CannotDetermineTransport)
           else createTransport sdk
                  \<lparr>type = map_of e ''type'', command = None, args = None, env = None,
                   url = map_of e ''url'', ws_url = map_of e ''ws_url''\<rparr>)
      | _ \<Rightarrow> Inl CannotDetermineTransport)"

definition createSession :: "sdk \<Rightarrow> string \<Rightarrow> world \<Rightarrow> (error + MCPClientSDK) \<times> world" where
  "createSession sdk serverName w =
     (case mcpServers (config w) of
        None \<Rightarrow> (Inl NoServersDefined, w)
      | Some servers \<Rightarrow>
          if servers = [] then (Inl NoServersDefined, w)
          else
            (case servers_get servers (mcpServers_proto (config w)) serverName of
               None \<Rightarrow> (Inl (ServerNotInConfig serverName), w)
             | Some cfg \<Rightarrow>
                 if \<not> truthy_property (Some cfg) then (Inl (ServerNotInConfig serverName), w)
                 else
                 (case createTransport_of sdk cfg of
                    Inl e \<Rightarrow> (Inl e, w)
                  | Inr t \<Rightarrow>
                      (let client = MCPClientSDK (length (calls w)) serverName ''1.0.0'' t;
                           w1 = w\<lparr>calls := calls w @ [Connect client]\<rparr>
                       in case sdk_connect sdk client of
                            Some reason \<Rightarrow> (Inl (Rejected reason), w1)
                          | None \<Rightarrow>
                              (Inr client,
                               w1\<lparr>sessions := AList.update serverName client (sessions w1),
                                  activeSessions :=
                                    (if serverName \<in> set (activeSessions w1)
                                     then activeSessions w1
                                     else activeSessions w1 @ [serverName])\<rparr>)))))"

fun createSessions :: "sdk \<Rightarrow> string list \<Rightarrow> world \<Rightarrow> (error + unit) \<times> world" where
  "createSessions sdk [] w = (Inr (), w)"
| "createSessions sdk (n # ns) w =
     (case createSession sdk n w of
        (Inl e, w') \<Rightarrow> (Inl e, w')
      | (Inr _, w') \<Rightarrow> createSessions sdk ns w')"

fun scanTools ::
  "sdk \<Rightarrow> (string \<times> MCPClientSDK) list \<Rightarrow> (string \<times> string) list \<Rightarrow> world
     \<Rightarrow> (error + (string \<times> string) list) \<times> world" where
  "scanTools sdk [] acc w = (Inr acc, w)"
| "scanTools sdk ((serverName, session) # rest) acc w =
     (let w1 = w\<lparr>calls := calls w @ [ListTools session]\<rparr>
      in case sdk_listTools sdk session of
           Inl reason \<Rightarrow> (Inl (Rejected reason), w1)
         | Inr tools \<Rightarrow>
             scanTools sdk rest
               (fold (\<lambda>tool m. AList.update (name tool) serverName m) tools acc) w1)"

definition getToolServerMap ::
  "sdk \<Rightarrow> world \<Rightarrow> (error + (string \<times> string) list) \<times> world" where
  "getToolServerMap sdk w = scanTools sdk (sessions w) [] w"

definition createAllSessions ::
  "sdk \<Rightarrow> world \<Rightarrow> (error + (string \<times> MCPClientSDK) list) \<times> world" where
  "createAllSessions sdk w =
     (case mcpServers (config w) of
        None \<Rightarrow> (Inl NoServersDefined, w)
      | Some servers \<Rightarrow>
          if servers = [] then (Inl NoServersDefined, w)
          else
            (case createSessions sdk (map fst servers) w of
               (Inl e, w1) \<Rightarrow> (Inl e, w1)
             | (Inr _, w1) \<Rightarrow>
                 (case getToolServerMap sdk w1 of
                    (Inl e, w2) \<Rightarrow> (Inl e, w2)
                  | (Inr m, w2) \<Rightarrow> (Inr (sessions w2), w2\<lparr>toolServerMap := m\<rparr>))))"

definition getSession :: "string \<Rightarrow> world \<Rightarrow> error + MCPClientSDK" where
  "getSession serverName w =
     (case map_of (sessions w) serverName of
        None \<Rightarrow> Inl (NoSessionExists serverName)
      | Some session \<Rightarrow> Inr session)"

definition getAllActiveSessions :: "world \<Rightarrow> (string \<times> MCPClientSDK) list" where
  "getAllActiveSessions w =
     fold (\<lambda>n result.
             case map_of (sessions w) n of
               None \<Rightarrow> result
             | Some sess \<Rightarrow> AList.update n sess result)
          (activeSessions w) []"

definition closeSession :: "sdk \<Rightarrow> string \<Rightarrow> world \<Rightarrow> (error + unit) \<times> world" where
  "closeSession sdk serverName w =
     (case map_of (sessions w) serverName of
        None \<Rightarrow> (Inr (), w\<lparr>console := console w @ [Warn_no_session serverName]\<rparr>)
      | Some client \<Rightarrow>
          (let w1 = w\<lparr>console := console w @ [Debug_closing serverName],
                      calls := calls w @ [Close client]\<rparr>;
               w2 = (case sdk_close sdk client of
                       None \<Rightarrow> w1
                     | Some err \<Rightarrow>
                         w1\<lparr>console := console w1 @ [Error_closing serverName err]\<rparr>)
           in (Inr (),
               w2\<lparr>sessions := AList.delete serverName (sessions w2),
                  activeSessions := remove1 serverName (activeSessions w2)\<rparr>)))"

fun closeEach :: "sdk \<Rightarrow> string list \<Rightarrow> string list \<Rightarrow> world \<Rightarrow> string list \<times> world" where
  "closeEach sdk [] errors w = (errors, w)"
| "closeEach sdk (n # ns) errors w =
     (case closeSession sdk n w of
        (Inr _, w') \<Rightarrow> closeEach sdk ns errors w'
      | (Inl e, w') \<Rightarrow>
          closeEach sdk ns (errors @ [n])
            (w'\<lparr>console := console w' @ [Error_failed_to_close n]\<rparr>))"

definition closeAllSessions :: "sdk \<Rightarrow> world \<Rightarrow> (error + unit) \<times> world" where
  "closeAllSessions sdk w =
     (case closeEach sdk (map fst (sessions w)) [] w of
        (errors, w') \<Rightarrow>
          (Inr (),
           w'\<lparr>console := console w' @
                [if length errors > 0 then Error_encountered (length errors)
                 else Debug_all_closed]\<rparr>))"

fun listEach ::
  "sdk \<Rightarrow> string list \<Rightarrow> (string \<times> string \<times> json) list \<Rightarrow> world
     \<Rightarrow> (error + (string \<times> string \<times> json) list) \<times> world" where
  "listEach sdk [] allTools w = (Inr allTools, w)"
| "listEach sdk (serverName # rest) allTools w =
     (case map_of (sessions w) serverName of
        None \<Rightarrow> (Inl (NoSessionFound serverName), w)
      | Some session \<Rightarrow>
          (let w1 = w\<lparr>calls := calls w @ [ListTools session]\<rparr>
           in case sdk_listTools sdk session of
                Inl reason \<Rightarrow> (Inl (Rejected reason), w1)
              | Inr tools \<Rightarrow>
                  listEach sdk rest
                    (allTools @
                       map (\<lambda>t. (name t,
                                  (case description t of None \<Rightarrow> [] | Some d \<Rightarrow> d),
                                  inputSchema t)) tools)
                    w1))"

definition listTools ::
  "sdk \<Rightarrow> world \<Rightarrow> (error + (string \<times> string \<times> json) list) \<times> world" where
  "listTools sdk w = listEach sdk (activeSessions w) [] w"

text \<open>
  \<^verbatim>\<open>callTool\<close> tests the index lookup with \<^verbatim>\<open>!serverName\<close> and the session lookup with
  \<^verbatim>\<open>!session\<close>; a session is an object and so truthy, a server name is a string.
\<close>

definition callTool :: "sdk \<Rightarrow> string \<Rightarrow> json \<Rightarrow> world \<Rightarrow> (error + json) \<times> world" where
  "callTool sdk n arguments w =
     (if \<not> truthy_string (map_of (toolServerMap w) n) then (Inl (NoServerForTool n), w)
      else
        (case map_of (toolServerMap w) n of
           None \<Rightarrow> (Inl (NoServerForTool n), w)
         | Some serverName \<Rightarrow>
             (case map_of (sessions w) serverName of
                None \<Rightarrow> (Inl (NoSessionFound serverName), w)
              | Some session \<Rightarrow>
                  (let w1 = w\<lparr>calls := calls w @
                                 [CallTool session n arguments (maxToolTimeout w)]\<rparr>
                   in case sdk_callTool sdk session n arguments (maxToolTimeout w) of
                        Inl reason \<Rightarrow> (Inl (Rejected reason), w1)
                      | Inr result \<Rightarrow> (Inr result, w1)))))"

section \<open>Reachable states and the registry invariant\<close>

text \<open>
  A state is reachable when it is built by the constructor and then changed only through
  the public methods of the class, whatever the outside world answers at each call.
\<close>

inductive reachable :: "world \<Rightarrow> bool" where
  new: "constructor sdk configPathOrObject timeout = Inr w \<Longrightarrow> reachable w"
| addServer: "reachable w \<Longrightarrow> reachable (addServer n serverConfig w)"
| removeServer: "reachable w \<Longrightarrow> reachable (removeServer n w)"
| createSession: "reachable w \<Longrightarrow> reachable (snd (createSession sdk n w))"
| createAllSessions: "reachable w \<Longrightarrow> reachable (snd (createAllSessions sdk w))"
| closeSession: "reachable w \<Longrightarrow> reachable (snd (closeSession sdk n w))"
| closeAllSessions: "reachable w \<Longrightarrow> reachable (snd (closeAllSessions sdk w))"
| listTools: "reachable w \<Longrightarrow> reachable (snd (listTools sdk w))"
| callTool: "reachable w \<Longrightarrow> reachable (snd (callTool sdk n arguments w))"

definition registry_ok :: "world \<Rightarrow> bool" where
  "registry_ok w =
     (distinct (map fst (sessions w)) \<and> distinct (activeSessions w)
      \<and> set (activeSessions w) \<subseteq> fst ` set (sessions w))"

text \<open>
  The server that the index built by a scan of \<open>entries\<close> holds for a tool name: the last
  entry whose catalog lists the name, if there is one.
\<close>

definition lists_tool :: "sdk \<Rightarrow> string \<Rightarrow> string \<times> MCPClientSDK \<Rightarrow> bool" where
  "lists_tool sdk t entry =
     (case sdk_listTools sdk (snd entry) of
        Inl _ \<Rightarrow> False
      | Inr tools \<Rightarrow> t \<in> name ` set tools)"

definition last_lister ::
  "sdk \<Rightarrow> string \<Rightarrow> (string \<times> MCPClientSDK) list \<Rightarrow> string option" where
  "last_lister sdk t entries =
     (case filter (lists_tool sdk t) entries of
        [] \<Rightarrow> None
      | e # es \<Rightarrow> Some (fst (last (e # es))))"

text \<open>
  The rebuild as the specification words it (section 4.3): for every server name in
  \<^verbatim>\<open>activeSessions\<close>, query that session's catalog and record each tool name under the
  server name.
\<close>

definition rebuild_spec :: "sdk \<Rightarrow> world \<Rightarrow> (string \<times> string) list" where
  "rebuild_spec sdk w =
     fold (\<lambda>serverName m.
             case map_of (sessions w) serverName of
               None \<Rightarrow> m
             | Some session \<Rightarrow>
                 (case sdk_listTools sdk session of
                    Inl _ \<Rightarrow> m
                  | Inr tools \<Rightarrow> fold (\<lambda>tool. AList.update (name tool) serverName) tools m))
          (activeSessions w) []"

section \<open>Concrete configurations and worlds\<close>

definition stdio_server :: "string \<Rightarrow> MCPServerConfig" where
  "stdio_server c =
     \<lparr>type = None, command = Some c, args = Some [''hi''], env = None, url = None,
      ws_url = None\<rparr>"

definition a_tool :: "string \<Rightarrow> tool" where
  "a_tool n = \<lparr>name = n, description = None, inputSchema = ''{}''\<rparr>"

text \<open>
  An outside world for the examples: every URL but \<^verbatim>\<open>nope\<close> parses, the server
  launched by \<^verbatim>\<open>bad\<close> refuses the connection, the session of server \<^verbatim>\<open>b\<close> fails to
  close, server \<^verbatim>\<open>a\<close> offers the tools \<^verbatim>\<open>x\<close> and \<^verbatim>\<open>s\<close>, every other server the
  tools \<^verbatim>\<open>y\<close> and \<^verbatim>\<open>s\<close>.
\<close>

definition demo_sdk :: sdk where
  "demo_sdk =
     \<lparr>new_URL = (\<lambda>s. s \<noteq> ''nope''),
      sdk_connect =
        (\<lambda>c. case connected_to c of
                StdioClientTransport cmd _ _ \<Rightarrow> (if cmd = ''bad'' then Some ''refused'' else None)
              | _ \<Rightarrow> None),
      sdk_close = (\<lambda>c. if client_name c = ''b'' then Some ''broken pipe'' else None),
      sdk_listTools =
        (\<lambda>c. if client_name c = ''a'' then Inr [a_tool ''x'', a_tool ''s'']
              else Inr [a_tool ''y'', a_tool ''s'']),
      sdk_callTool = (\<lambda>c n arguments t. Inr ''done''),
      read_config = (\<lambda>p. Inl ''ENOENT'')\<rparr>"

definition stdio_session :: "nat \<Rightarrow> string \<Rightarrow> MCPClientSDK" where
  "stdio_session i n = MCPClientSDK i n ''1.0.0'' (StdioClientTransport ''run'' [''hi''] None)"

definition config_ab :: MCPConfig where
  "config_ab =
     \<lparr>mcpServers = Some [(''a'', stdio_server ''run''), (''b'', stdio_server ''run'')],
      mcpServers_proto = None\<rparr>"

definition new_world :: "MCPConfig \<Rightarrow> world" where
  "new_world cfg =
     \<lparr>config = cfg, sessions = [], activeSessions = [], toolServerMap = [],
      maxToolTimeout = Num 10000, calls = [], console = []\<rparr>"

text \<open>
  Both servers connected; then \<^verbatim>\<open>a\<close> removed from the configuration; then all sessions
  created again.
\<close>

definition world_ab :: world where
  "world_ab = snd (createAllSessions demo_sdk (new_world config_ab))"

definition world_b :: world where
  "world_b = removeServer ''a'' world_ab"

definition world_rescan :: world where
  "world_rescan = snd (createAllSessions demo_sdk world_b)"

text \<open>A descriptor whose \<^verbatim>\<open>command\<close> is the empty string, with \<^verbatim>\<open>args\<close> and an SSE URL.\<close>

definition empty_command_server :: MCPServerConfig where
  "empty_command_server =
     \<lparr>type = Some ''sse'', command = Some '''', args = Some [''hi''], env = None,
      url = Some ''http://localhost:8000/sse'', ws_url = None\<rparr>"

definition url_server :: "string \<Rightarrow> string \<Rightarrow> MCPServerConfig" where
  "url_server kind u =
     \<lparr>type = Some kind, command = None, args = None, env = None, url = Some u,
      ws_url = None\<rparr>"

definition ws_server :: "string \<Rightarrow> MCPServerConfig" where
  "ws_server u =
     \<lparr>type = None, command = None, args = None, env = None, url = None, ws_url = Some u\<rparr>"

definition no_server :: MCPServerConfig where
  "no_server =
     \<lparr>type = None, command = None, args = None, env = None, url = None, ws_url = None\<rparr>"

text \<open>A configuration whose only server has the empty string for its name.\<close>

definition config_unnamed :: MCPConfig where
  "config_unnamed =
     \<lparr>mcpServers = Some [('''', stdio_server ''run'')], mcpServers_proto = None\<rparr>"

definition world_unnamed :: world where
  "world_unnamed = snd (createAllSessions demo_sdk (new_world config_unnamed))"

text \<open>Three servers, the second of which refuses the connection.\<close>

definition config_refusing :: MCPConfig where
  "config_refusing =
     \<lparr>mcpServers =
        Some [(''a'', stdio_server ''run''), (''z'', stdio_server ''bad''),
              (''c'', stdio_server ''run'')],
      mcpServers_proto = None\<rparr>"

text \<open>
  One configured server, \<^verbatim>\<open>a\<close>; then a descriptor that has only an \<^verbatim>\<open>env\<close> record is
  added under the name \<^verbatim>\<open>__proto__\<close>; then a session is created for the name \<^verbatim>\<open>env\<close>;
  then all sessions are created.
\<close>

definition env_descriptor :: MCPServerConfig where
  "env_descriptor =
     \<lparr>type = None, command = None, args = None, env = Some [(''ws_url'', ''ws://h'')],
      url = None, ws_url = None\<rparr>"

definition config_a :: MCPConfig where
  "config_a = \<lparr>mcpServers = Some [(''a'', stdio_server ''run'')], mcpServers_proto = None\<rparr>"

definition world_proto :: world where
  "world_proto = addServer ''__proto__'' env_descriptor (new_world config_a)"

definition world_env :: world where
  "world_env = snd (createSession demo_sdk ''env'' world_proto)"

definition world_env_all :: world where
  "world_env_all = snd (createAllSessions demo_sdk world_env)"

section \<open>Objects and maps\<close>

lemma obj_insert_keys: "fst ` set (obj_insert k v ps) = insert k (fst ` set ps)"
  by (induction ps) auto

lemma obj_set_keys: "fst ` set (obj_set k v ps) = insert k (fst ` set ps)"
  by (auto simp: obj_set_def obj_insert_keys AList.dom_update)

lemma map_of_obj_insert:
  "k \<notin> fst ` set ps \<Longrightarrow> map_of (obj_insert k v ps) = (map_of ps)(k \<mapsto> v)"
  by (induction ps) (auto simp: fun_eq_iff)

lemma map_of_obj_set: "map_of (obj_set k v ps) = (map_of ps)(k \<mapsto> v)"
  by (simp add: obj_set_def map_of_obj_insert AList.update_conv')

lemma map_of_keys: "map_of ps k = Some v \<Longrightarrow> k \<in> fst ` set ps"
  by (metis domI dom_map_of_conv_image_fst)

lemma keys_map_of: "k \<in> fst ` set ps \<Longrightarrow> \<exists>v. map_of ps k = Some v"
  by (metis domD dom_map_of_conv_image_fst)

lemma delete_keys_set: "fst ` set (AList.delete k ps) = fst ` set ps - {k}"
  by (induction ps) auto

lemma set_remove1_distinct: "distinct xs \<Longrightarrow> set (remove1 x xs) = set xs - {x}"
  by simp

section \<open>What each method leaves alone\<close>

lemma createSession_frame:
  "config (snd (createSession sdk n w)) = config w"
  "toolServerMap (snd (createSession sdk n w)) = toolServerMap w"
  "maxToolTimeout (snd (createSession sdk n w)) = maxToolTimeout w"
  "console (snd (createSession sdk n w)) = console w"
  by (simp_all add: createSession_def Let_def split: option.split sum.split)

lemma createSessions_frame:
  "config (snd (createSessions sdk ns w)) = config w
   \<and> toolServerMap (snd (createSessions sdk ns w)) = toolServerMap w
   \<and> maxToolTimeout (snd (createSessions sdk ns w)) = maxToolTimeout w
   \<and> console (snd (createSessions sdk ns w)) = console w"
proof (induction ns arbitrary: w)
  case Nil
  show ?case by simp
next
  case (Cons n ns)
  obtain r w' where step: "createSession sdk n w = (r, w')"
    by (cases "createSession sdk n w")
  have fr: "config w' = config w" "toolServerMap w' = toolServerMap w"
    "maxToolTimeout w' = maxToolTimeout w" "console w' = console w"
    using createSession_frame [of sdk n w] step by simp_all
  show ?case
  proof (cases r)
    case (Inl e)
    with step fr show ?thesis by simp
  next
    case (Inr c)
    with step fr Cons.IH [of w'] show ?thesis by simp
  qed
qed

lemma scanTools_frame:
  "config (snd (scanTools sdk entries acc w)) = config w
   \<and> sessions (snd (scanTools sdk entries acc w)) = sessions w
   \<and> activeSessions (snd (scanTools sdk entries acc w)) = activeSessions w
   \<and> toolServerMap (snd (scanTools sdk entries acc w)) = toolServerMap w
   \<and> maxToolTimeout (snd (scanTools sdk entries acc w)) = maxToolTimeout w
   \<and> console (snd (scanTools sdk entries acc w)) = console w"
proof (induction entries arbitrary: acc w)
  case Nil
  show ?case by simp
next
  case (Cons e entries)
  obtain n s where e: "e = (n, s)" by (cases e)
  show ?case
  proof (cases "sdk_listTools sdk s")
    case (Inl reason)
    with e show ?thesis by simp
  next
    case (Inr tools)
    with e Cons.IH show ?thesis by simp
  qed
qed

lemma getToolServerMap_frame:
  "config (snd (getToolServerMap sdk w)) = config w
   \<and> sessions (snd (getToolServerMap sdk w)) = sessions w
   \<and> activeSessions (snd (getToolServerMap sdk w)) = activeSessions w
   \<and> toolServerMap (snd (getToolServerMap sdk w)) = toolServerMap w
   \<and> maxToolTimeout (snd (getToolServerMap sdk w)) = maxToolTimeout w
   \<and> console (snd (getToolServerMap sdk w)) = console w"
  unfolding getToolServerMap_def by (rule scanTools_frame)

lemma closeSession_returns: "fst (closeSession sdk n w) = Inr ()"
  by (simp add: closeSession_def Let_def split: option.split)

lemma closeSession_frame:
  "config (snd (closeSession sdk n w)) = config w"
  "toolServerMap (snd (closeSession sdk n w)) = toolServerMap w"
  "maxToolTimeout (snd (closeSession sdk n w)) = maxToolTimeout w"
  by (simp_all add: closeSession_def Let_def split: option.split)

lemma closeSession_sessions:
  "sessions (snd (closeSession sdk n w)) = AList.delete n (sessions w)"
proof (cases "map_of (sessions w) n")
  case None
  then have "n \<notin> fst ` set (sessions w)"
    by (metis keys_map_of option.distinct(1))
  with None show ?thesis by (simp add: closeSession_def)
next
  case (Some c)
  then show ?thesis by (simp add: closeSession_def Let_def split: option.split)
qed

lemma closeSession_active:
  "activeSessions (snd (closeSession sdk n w)) =
     (if map_of (sessions w) n = None then activeSessions w
      else remove1 n (activeSessions w))"
  by (simp add: closeSession_def Let_def split: option.split)

lemma closeEach_step:
  "closeEach sdk (n # ns) errors w = closeEach sdk ns errors (snd (closeSession sdk n w))"
proof -
  obtain r w' where step: "closeSession sdk n w = (r, w')"
    by (cases "closeSession sdk n w")
  with closeSession_returns [of sdk n w] have "r = Inr ()" by simp
  with step show ?thesis by simp
qed

lemma closeEach_errors: "fst (closeEach sdk ns errors w) = errors"
  by (induction ns arbitrary: w) (simp_all add: closeEach_step del: closeEach.simps(2))

lemma closeEach_frame:
  "config (snd (closeEach sdk ns errors w)) = config w
   \<and> toolServerMap (snd (closeEach sdk ns errors w)) = toolServerMap w
   \<and> maxToolTimeout (snd (closeEach sdk ns errors w)) = maxToolTimeout w"
  by (induction ns arbitrary: w)
     (simp_all add: closeEach_step closeSession_frame del: closeEach.simps(2))

lemma closeAllSessions_snd:
  "snd (closeAllSessions sdk w) =
     (snd (closeEach sdk (map fst (sessions w)) [] w))
       \<lparr>console := console (snd (closeEach sdk (map fst (sessions w)) [] w)) @ [Debug_all_closed]\<rparr>"
proof -
  obtain errors w' where l: "closeEach sdk (map fst (sessions w)) [] w = (errors, w')"
    by (cases "closeEach sdk (map fst (sessions w)) [] w")
  with closeEach_errors [of sdk "map fst (sessions w)" "[]" w] have "errors = []" by simp
  with l show ?thesis by (simp add: closeAllSessions_def)
qed

lemma listEach_frame:
  "config (snd (listEach sdk ns acc w)) = config w
   \<and> sessions (snd (listEach sdk ns acc w)) = sessions w
   \<and> activeSessions (snd (listEach sdk ns acc w)) = activeSessions w
   \<and> toolServerMap (snd (listEach sdk ns acc w)) = toolServerMap w
   \<and> maxToolTimeout (snd (listEach sdk ns acc w)) = maxToolTimeout w
   \<and> console (snd (listEach sdk ns acc w)) = console w"
proof (induction ns arbitrary: acc w)
  case Nil
  show ?case by simp
next
  case (Cons n ns)
  show ?case
  proof (cases "map_of (sessions w) n")
    case None
    then show ?thesis by simp
  next
    case (Some s)
    show ?thesis
    proof (cases "sdk_listTools sdk s")
      case (Inl reason)
      with Some show ?thesis by simp
    next
      case (Inr tools)
      with Some Cons.IH show ?thesis by simp
    qed
  qed
qed

lemma callTool_frame:
  "config (snd (callTool sdk n a w)) = config w
   \<and> sessions (snd (callTool sdk n a w)) = sessions w
   \<and> activeSessions (snd (callTool sdk n a w)) = activeSessions w
   \<and> toolServerMap (snd (callTool sdk n a w)) = toolServerMap w
   \<and> maxToolTimeout (snd (callTool sdk n a w)) = maxToolTimeout w
   \<and> console (snd (callTool sdk n a w)) = console w"
  by (simp add: callTool_def Let_def split: option.split sum.split)

lemma createAllSessions_frame:
  "config (snd (createAllSessions sdk w)) = config w
   \<and> maxToolTimeout (snd (createAllSessions sdk w)) = maxToolTimeout w"
proof -
  obtain r1 w1 where l: "createSessions sdk (getServerNames w) w = (r1, w1)"
    by (cases "createSessions sdk (getServerNames w) w")
  obtain r2 w2 where g: "getToolServerMap sdk w1 = (r2, w2)"
    by (cases "getToolServerMap sdk w1")
  have f1: "config w1 = config w" "maxToolTimeout w1 = maxToolTimeout w"
    using createSessions_frame [of sdk "getServerNames w" w] l by simp_all
  have f2: "config w2 = config w1" "maxToolTimeout w2 = maxToolTimeout w1"
    using getToolServerMap_frame [of sdk w1] g by simp_all
  show ?thesis
    using l g f1 f2
    by (auto simp: createAllSessions_def getServerNames_def servers_of_def
             split: option.split sum.split prod.split)
qed


section \<open>The registry invariant\<close>

lemma registry_ok_cong:
  "sessions w' = sessions w \<Longrightarrow> activeSessions w' = activeSessions w \<Longrightarrow> config w' = config w
   \<Longrightarrow> registry_ok w' = registry_ok w"
  by (simp add: registry_ok_def)

lemma constructor_ok: "constructor sdk arg t = Inr w \<Longrightarrow> registry_ok w"
  by (auto simp: constructor_def registry_ok_def Let_def split: option.splits sum.splits if_splits)

lemma addServer_ok: "registry_ok w \<Longrightarrow> registry_ok (addServer n c w)"
  by (simp add: registry_ok_def addServer_def Let_def)

lemma removeServer_ok:
  assumes "registry_ok w"
  shows "registry_ok (removeServer n w)"
proof -
  have d: "distinct (activeSessions w)" and k: "distinct (map fst (sessions w))"
    and s: "set (activeSessions w) \<subseteq> fst ` set (sessions w)"
    using assms by (simp_all add: registry_ok_def)
  have 1: "sessions (removeServer n w) = sessions w"
    by (simp add: removeServer_def Let_def split: option.split)
  have 2: "activeSessions (removeServer n w) = remove1 n (activeSessions w)"
    by (simp add: removeServer_def Let_def split: option.split)
  show ?thesis
    unfolding registry_ok_def 1 2
    using d k s by auto
qed

lemma createSession_ok:
  assumes "registry_ok w"
  shows "registry_ok (snd (createSession sdk n w))"
proof (cases "fst (createSession sdk n w)")
  case (Inl e)
  then have "sessions (snd (createSession sdk n w)) = sessions w"
    "activeSessions (snd (createSession sdk n w)) = activeSessions w"
    by (auto simp: createSession_def Let_def split: option.splits sum.splits if_splits)
  with assms createSession_frame(1) [of sdk n w]
    registry_ok_cong [of "snd (createSession sdk n w)" w]
  show ?thesis by simp
next
  case (Inr c)
  then have se: "sessions (snd (createSession sdk n w)) = AList.update n c (sessions w)"
    and ac: "activeSessions (snd (createSession sdk n w)) =
      (if n \<in> set (activeSessions w) then activeSessions w else activeSessions w @ [n])"
    by (auto simp: createSession_def Let_def split: option.splits sum.splits if_splits)
  show ?thesis
    using assms unfolding registry_ok_def se ac
    by (auto simp: AList.distinct_update AList.dom_update)
qed

lemma createSessions_ok:
  "registry_ok w \<Longrightarrow> registry_ok (snd (createSessions sdk ns w))"
proof (induction ns arbitrary: w)
  case Nil
  then show ?case by simp
next
  case (Cons n ns)
  obtain r w' where step: "createSession sdk n w = (r, w')"
    by (cases "createSession sdk n w")
  with createSession_ok [OF Cons.prems, of sdk n] have ok: "registry_ok w'" by simp
  show ?case
  proof (cases r)
    case (Inl e)
    with step ok show ?thesis by simp
  next
    case (Inr c)
    with step Cons.IH [OF ok] show ?thesis by simp
  qed
qed

lemma createAllSessions_ok:
  assumes "registry_ok w"
  shows "registry_ok (snd (createAllSessions sdk w))"
proof -
  obtain r1 w1 where l: "createSessions sdk (getServerNames w) w = (r1, w1)"
    by (cases "createSessions sdk (getServerNames w) w")
  obtain r2 w2 where g: "getToolServerMap sdk w1 = (r2, w2)"
    by (cases "getToolServerMap sdk w1")
  have ok1: "registry_ok w1"
    using createSessions_ok [OF assms, of sdk "getServerNames w"] l by simp
  have "registry_ok w2 = registry_ok w1"
    using getToolServerMap_frame [of sdk w1] g registry_ok_cong [of w2 w1] by simp
  with ok1 have ok2: "registry_ok w2" by simp
  have "registry_ok (w2\<lparr>toolServerMap := m\<rparr>)" for m
    using ok2 by (simp add: registry_ok_def)
  with assms ok1 ok2 l g show ?thesis
    by (auto simp: createAllSessions_def getServerNames_def servers_of_def
             split: option.split sum.split prod.split)
qed

lemma closeSession_ok:
  assumes "registry_ok w"
  shows "registry_ok (snd (closeSession sdk n w))"
proof -
  have d: "distinct (activeSessions w)" and k: "distinct (map fst (sessions w))"
    and s: "set (activeSessions w) \<subseteq> fst ` set (sessions w)"
    using assms by (simp_all add: registry_ok_def)
  show ?thesis
  proof (cases "map_of (sessions w) n")
    case None
    then have "n \<notin> fst ` set (sessions w)"
      by (metis keys_map_of option.distinct(1))
    with None assms show ?thesis
      unfolding registry_ok_def closeSession_sessions closeSession_active by simp
  next
    case (Some cl)
    with d k s show ?thesis
      unfolding registry_ok_def closeSession_sessions closeSession_active
      by (auto simp: AList.distinct_delete delete_keys_set)
  qed
qed

lemma closeEach_ok:
  "registry_ok w \<Longrightarrow> registry_ok (snd (closeEach sdk ns errors w))"
  by (induction ns arbitrary: w)
     (simp_all add: closeEach_step closeSession_ok del: closeEach.simps(2))

lemma closeAllSessions_ok:
  assumes "registry_ok w"
  shows "registry_ok (snd (closeAllSessions sdk w))"
  using closeEach_ok [OF assms, of sdk "map fst (sessions w)" "[]"]
  unfolding closeAllSessions_snd
  by (simp add: registry_ok_def)

lemma listTools_ok: "registry_ok w \<Longrightarrow> registry_ok (snd (listTools sdk w))"
  using listEach_frame [of sdk "activeSessions w" "[]" w]
    registry_ok_cong [of "snd (listTools sdk w)" w]
  by (simp add: listTools_def)

lemma callTool_ok: "registry_ok w \<Longrightarrow> registry_ok (snd (callTool sdk n a w))"
  using callTool_frame [of sdk n a w] registry_ok_cong [of "snd (callTool sdk n a w)" w]
  by simp

lemma reachable_registry_ok: "reachable w \<Longrightarrow> registry_ok w"
proof (induction rule: reachable.induct)
  case (new sdk configPathOrObject timeout w)
  then show ?case by (rule constructor_ok)
next
  case (addServer w n serverConfig)
  then show ?case by (simp add: addServer_ok)
next
  case (removeServer w n)
  then show ?case by (simp add: removeServer_ok)
next
  case (createSession w sdk n)
  then show ?case by (simp add: createSession_ok)
next
  case (createAllSessions w sdk)
  then show ?case by (simp add: createAllSessions_ok)
next
  case (closeSession w sdk n)
  then show ?case by (simp add: closeSession_ok)
next
  case (closeAllSessions w sdk)
  then show ?case by (simp add: closeAllSessions_ok)
next
  case (listTools w sdk)
  then show ?case by (simp add: listTools_ok)
next
  case (callTool w sdk n arguments)
  then show ?case by (simp add: callTool_ok)
qed

lemma constructor_timeout: "constructor sdk arg t = Inr w \<Longrightarrow> maxToolTimeout w \<noteq> Num 0"
proof -
  assume a: "constructor sdk arg t = Inr w"
  have "(case t of Some x \<Rightarrow> (if truthy_number (Some x) then x else Num 10000)
          | None \<Rightarrow> Num 10000) \<noteq> Num 0"
  proof (cases t)
    case None
    then show ?thesis by simp
  next
    case (Some x)
    then show ?thesis by (cases x) simp_all
  qed
  with a show ?thesis
    by (auto simp: constructor_def Let_def split: option.splits sum.splits if_splits)
qed

lemma reachable_timeout: "reachable w \<Longrightarrow> maxToolTimeout w \<noteq> Num 0"
proof (induction rule: reachable.induct)
  case (new sdk configPathOrObject timeout w)
  then show ?case by (rule constructor_timeout)
next
  case (addServer w n serverConfig)
  then show ?case by (simp add: addServer_def Let_def)
next
  case (removeServer w n)
  then show ?case by (simp add: removeServer_def Let_def split: option.split)
next
  case (createSession w sdk n)
  then show ?case by (simp add: createSession_frame)
next
  case (createAllSessions w sdk)
  then show ?case by (simp add: createAllSessions_frame)
next
  case (closeSession w sdk n)
  then show ?case by (simp add: closeSession_frame)
next
  case (closeAllSessions w sdk)
  then show ?case by (simp add: closeAllSessions_snd closeEach_frame)
next
  case (listTools w sdk)
  then show ?case using listEach_frame [of sdk "activeSessions w" "[]" w] by (simp add: listTools_def)
next
  case (callTool w sdk n arguments)
  then show ?case by (simp add: callTool_frame)
qed

section \<open>Creating sessions\<close>

lemma createSession_Inr:
  assumes "createSession sdk n w = (Inr c, w')"
  shows "sessions w' = AList.update n c (sessions w)"
    and "activeSessions w' =
           (if n \<in> set (activeSessions w) then activeSessions w else activeSessions w @ [n])"
    and "calls w' = calls w @ [Connect c]"
    and "client_name c = n"
  using assms
  by (auto simp: createSession_def Let_def split: option.splits sum.splits if_splits)

lemma createSession_Inl:
  assumes "createSession sdk n w = (Inl e, w')"
  shows "sessions w' = sessions w"
    and "activeSessions w' = activeSessions w"
    and "calls w' = calls w \<or> (\<exists>c. calls w' = calls w @ [Connect c] \<and> client_name c = n)"
  using assms
  by (auto simp: createSession_def Let_def split: option.splits sum.splits if_splits)

lemma createSessions_append:
  "createSessions sdk (xs @ ys) w =
     (case createSessions sdk xs w of
        (Inl e, w') \<Rightarrow> (Inl e, w')
      | (Inr u, w') \<Rightarrow> createSessions sdk ys w')"
  by (induction xs arbitrary: w) (auto split: prod.split sum.split)

lemma createSessions_Inr:
  "createSessions sdk ns w = (Inr u, w') \<Longrightarrow>
     set (activeSessions w') = set (activeSessions w) \<union> set ns
     \<and> fst ` set (sessions w') = fst ` set (sessions w) \<union> set ns
     \<and> (\<exists>cs. calls w' = calls w @ map Connect cs \<and> map client_name cs = ns)"
proof (induction ns arbitrary: w)
  case Nil
  then show ?case by simp
next
  case (Cons n ns)
  obtain r w1 where step: "createSession sdk n w = (r, w1)"
    by (cases "createSession sdk n w")
  show ?case
  proof (cases r)
    case (Inl e)
    with step Cons.prems show ?thesis by simp
  next
    case (Inr c)
    with step Cons.prems have rest: "createSessions sdk ns w1 = (Inr u, w')" by simp
    note one = createSession_Inr [OF step [unfolded Inr]]
    from Cons.IH [OF rest] obtain cs where
      a: "set (activeSessions w') = set (activeSessions w1) \<union> set ns" and
      s: "fst ` set (sessions w') = fst ` set (sessions w1) \<union> set ns" and
      c: "calls w' = calls w1 @ map Connect cs" "map client_name cs = ns"
      by blast
    have "\<exists>cs. calls w' = calls w @ map Connect cs \<and> map client_name cs = n # ns"
      by (rule exI [of _ "c # cs"]) (use c one(3,4) in simp)
    moreover have "set (activeSessions w') = set (activeSessions w) \<union> set (n # ns)"
      using a one(2) by auto
    moreover have "fst ` set (sessions w') = fst ` set (sessions w) \<union> set (n # ns)"
      using s one(1) by (auto simp: AList.dom_update)
    ultimately show ?thesis by blast
  qed
qed

section \<open>Scanning the catalogs\<close>

lemma fold_update_map_of:
  "map_of (fold (\<lambda>tool m. AList.update (name tool) n m) tools acc) t =
     (if t \<in> name ` set tools then Some n else map_of acc t)"
  by (induction tools arbitrary: acc) (auto simp: AList.update_conv')

lemma fold_update_distinct:
  "distinct (map fst acc) \<Longrightarrow>
     distinct (map fst (fold (\<lambda>tool m. AList.update (name tool) n m) tools acc))"
  by (induction tools arbitrary: acc) (simp_all add: AList.distinct_update)

lemma last_lister_Cons:
  "last_lister sdk t (e # es) =
     (case last_lister sdk t es of
        Some m \<Rightarrow> Some m
      | None \<Rightarrow> if lists_tool sdk t e then Some (fst e) else None)"
  by (auto simp: last_lister_def split: list.splits)

lemma last_lister_None: "last_lister sdk t es = None \<longleftrightarrow> (\<forall>e \<in> set es. \<not> lists_tool sdk t e)"
proof -
  have "last_lister sdk t es = None \<longleftrightarrow> filter (lists_tool sdk t) es = []"
    by (simp add: last_lister_def split: list.split)
  then show ?thesis by (simp add: filter_empty_conv)
qed

lemma scanTools_Inr:
  "scanTools sdk entries acc w = (Inr idx, w') \<Longrightarrow>
     (\<forall>t. map_of idx t = (case last_lister sdk t entries of None \<Rightarrow> map_of acc t | Some m \<Rightarrow> Some m))
     \<and> (distinct (map fst acc) \<longrightarrow> distinct (map fst idx))
     \<and> calls w' = calls w @ map (\<lambda>e. ListTools (snd e)) entries"
proof (induction entries arbitrary: acc w)
  case Nil
  then show ?case by (simp add: last_lister_def)
next
  case (Cons e entries)
  obtain n s where e: "e = (n, s)" by (cases e)
  show ?case
  proof (cases "sdk_listTools sdk s")
    case (Inl reason)
    with e Cons.prems show ?thesis by simp
  next
    case (Inr tools)
    let ?acc = "fold (\<lambda>tool m. AList.update (name tool) n m) tools acc"
    let ?w = "w\<lparr>calls := calls w @ [ListTools s]\<rparr>"
    from e Inr Cons.prems have rest: "scanTools sdk entries ?acc ?w = (Inr idx, w')"
      by simp
    note ih = Cons.IH [OF rest]
    have l: "lists_tool sdk t (n, s) = (t \<in> name ` set tools)" for t
      using Inr by (simp add: lists_tool_def)
    have "map_of idx t =
        (case last_lister sdk t (e # entries) of None \<Rightarrow> map_of acc t | Some m \<Rightarrow> Some m)" for t
      using ih e by (simp add: last_lister_Cons l fold_update_map_of split: option.split)
    moreover have "distinct (map fst acc) \<longrightarrow> distinct (map fst idx)"
      using ih fold_update_distinct [of acc n tools] by blast
    moreover have "calls w' = calls w @ map (\<lambda>e. ListTools (snd e)) (e # entries)"
      using ih e by simp
    ultimately show ?thesis by blast
  qed
qed

section \<open>The active sessions\<close>

lemma fold_active_map_of:
  "map_of (fold (\<lambda>n result. case map_of S n of None \<Rightarrow> result
                              | Some sess \<Rightarrow> AList.update n sess result) ns acc) k =
     (if k \<in> set ns \<and> map_of S k \<noteq> None then map_of S k else map_of acc k)"
  by (induction ns arbitrary: acc) (auto simp: AList.update_conv' split: option.splits)

lemma fold_active_distinct:
  "distinct (map fst acc) \<Longrightarrow>
   distinct (map fst (fold (\<lambda>n result. case map_of S n of None \<Rightarrow> result
                              | Some sess \<Rightarrow> AList.update n sess result) ns acc))"
  by (induction ns arbitrary: acc) (auto simp: AList.distinct_update split: option.splits)

lemma getAllActiveSessions_map_of:
  "map_of (getAllActiveSessions w) k =
     (if k \<in> set (activeSessions w) then map_of (sessions w) k else None)"
  by (simp add: getAllActiveSessions_def fold_active_map_of)

lemma getAllActiveSessions_distinct: "distinct (map fst (getAllActiveSessions w))"
  by (simp add: getAllActiveSessions_def fold_active_distinct)

lemma getAllActiveSessions_keys:
  "fst ` set (getAllActiveSessions w) =
     {k \<in> set (activeSessions w). map_of (sessions w) k \<noteq> None}"
proof -
  have "fst ` set (getAllActiveSessions w) = dom (map_of (getAllActiveSessions w))"
    by (simp add: dom_map_of_conv_image_fst)
  also have "\<dots> = {k \<in> set (activeSessions w). map_of (sessions w) k \<noteq> None}"
    by (auto simp: getAllActiveSessions_map_of dom_def)
  finally show ?thesis .
qed

section \<open>Closing\<close>

lemma closeEach_sessions:
  "fst ` set (sessions (snd (closeEach sdk ns errors w))) = fst ` set (sessions w) - set ns"
  by (induction ns arbitrary: w)
     (auto simp: closeEach_step closeSession_sessions delete_keys_set simp del: closeEach.simps(2))

section \<open>The concrete worlds\<close>

lemmas demo_defs = new_world_def config_ab_def stdio_server_def demo_sdk_def a_tool_def
  stdio_session_def
lemmas op_defs = createAllSessions_def createSession_def createTransport_def getToolServerMap_def
  removeServer_def closeSession_def closeAllSessions_def callTool_def Let_def
lemmas obj_defs = servers_get_def descriptor_get_def createTransport_of_def

lemma reachable_new_world: "reachable (new_world cfg)"
proof -
  have "constructor demo_sdk (Some (Inr cfg)) None = Inr (new_world cfg)"
    by (simp add: constructor_def new_world_def)
  then show ?thesis by (rule reachable.new)
qed

lemma reachable_world_ab: "reachable world_ab"
  unfolding world_ab_def by (rule reachable.createAllSessions) (rule reachable_new_world)

lemma reachable_world_b: "reachable world_b"
  unfolding world_b_def by (rule reachable.removeServer) (rule reachable_world_ab)

lemma world_ab_run:
  "createAllSessions demo_sdk (new_world config_ab) =
     (Inr [(''a'', stdio_session 0 ''a''), (''b'', stdio_session 1 ''b'')],
      \<lparr>config = config_ab,
       sessions = [(''a'', stdio_session 0 ''a''), (''b'', stdio_session 1 ''b'')],
       activeSessions = [''a'', ''b''],
       toolServerMap = [(''x'', ''a''), (''s'', ''b''), (''y'', ''b'')],
       maxToolTimeout = Num 10000,
       calls =
         [Connect (stdio_session 0 ''a''), Connect (stdio_session 1 ''b''),
          ListTools (stdio_session 0 ''a''), ListTools (stdio_session 1 ''b'')],
       console = []\<rparr>)"
  by (simp add: op_defs obj_defs demo_defs)

lemma world_ab_eval:
  "world_ab =
     \<lparr>config = config_ab,
      sessions = [(''a'', stdio_session 0 ''a''), (''b'', stdio_session 1 ''b'')],
      activeSessions = [''a'', ''b''],
      toolServerMap = [(''x'', ''a''), (''s'', ''b''), (''y'', ''b'')],
      maxToolTimeout = Num 10000,
      calls =
        [Connect (stdio_session 0 ''a''), Connect (stdio_session 1 ''b''),
         ListTools (stdio_session 0 ''a''), ListTools (stdio_session 1 ''b'')],
      console = []\<rparr>"
  by (simp add: world_ab_def world_ab_run)

lemma world_b_eval:
  "world_b =
     \<lparr>config = \<lparr>mcpServers = Some [(''b'', stdio_server ''run'')], mcpServers_proto = None\<rparr>,
      sessions = [(''a'', stdio_session 0 ''a''), (''b'', stdio_session 1 ''b'')],
      activeSessions = [''b''],
      toolServerMap = [(''x'', ''a''), (''s'', ''b''), (''y'', ''b'')],
      maxToolTimeout = Num 10000,
      calls =
        [Connect (stdio_session 0 ''a''), Connect (stdio_session 1 ''b''),
         ListTools (stdio_session 0 ''a''), ListTools (stdio_session 1 ''b'')],
      console = []\<rparr>"
  by (simp add: world_b_def world_ab_eval removeServer_def servers_get_def Let_def config_ab_def)

section \<open>Transport selection\<close>

text \<open>
  Claim C2 as stated fails: the descriptor below carries \<^verbatim>\<open>command\<close>, \<^verbatim>\<open>args\<close> and a
  \<^verbatim>\<open>url\<close>, yet the selector answers with the SSE transport, not with stdio, because its
  \<^verbatim>\<open>command\<close> is the empty string and the source tests \<^verbatim>\<open>cfg.command && cfg.args\<close>.
\<close>

theorem createTransport_empty_command_counterexample:
  "command empty_command_server = Some ''''
   \<and> args empty_command_server = Some [''hi'']
   \<and> url empty_command_server = Some ''http://localhost:8000/sse''
   \<and> createTransport demo_sdk empty_command_server =
       Inr (SSEClientTransport ''http://localhost:8000/sse'')"
  by (simp add: empty_command_server_def createTransport_def demo_sdk_def)

text \<open>
  Claim C2, amended: a field counts when it is truthy. A non-empty \<^verbatim>\<open>command\<close> together
  with \<^verbatim>\<open>args\<close> gives stdio, whatever else the descriptor carries; otherwise a non-empty
  \<^verbatim>\<open>url\<close> with type \<^verbatim>\<open>sse\<close> gives SSE and with type \<^verbatim>\<open>streamable-http\<close> gives
  streamable HTTP; otherwise a non-empty \<^verbatim>\<open>ws_url\<close> gives WebSocket; otherwise the
  selector fails with the configuration error. In the three URL branches the transport
  is returned when \<^verbatim>\<open>new URL\<close> accepts the string, and the URL constructor's error is
  raised when it does not.
\<close>

theorem createTransport_precedence:
  "(command cfg = Some c \<and> c \<noteq> [] \<and> args cfg = Some a \<longrightarrow>
      createTransport sdk cfg = Inr (StdioClientTransport c a (env cfg)))
   \<and> (\<not> (truthy_string (command cfg) \<and> args cfg \<noteq> None) \<longrightarrow>
        (url cfg = Some u \<and> u \<noteq> [] \<and> type cfg = Some ''sse'' \<longrightarrow>
           createTransport sdk cfg =
             (if new_URL sdk u then Inr (SSEClientTransport u) else Inl (InvalidURL u)))
      \<and> (url cfg = Some u \<and> u \<noteq> [] \<and> type cfg = Some ''streamable-http'' \<longrightarrow>
           createTransport sdk cfg =
             (if new_URL sdk u then Inr (StreamableHTTPClientTransport u)
              else Inl (InvalidURL u)))
      \<and> (\<not> (truthy_string (url cfg)
               \<and> (type cfg = Some ''sse'' \<or> type cfg = Some ''streamable-http'')) \<longrightarrow>
           (ws_url cfg = Some v \<and> v \<noteq> [] \<longrightarrow>
              createTransport sdk cfg =
                (if new_URL sdk v then Inr (WebSocketClientTransport v)
                 else Inl (InvalidURL v)))
         \<and> (\<not> truthy_string (ws_url cfg) \<longrightarrow>
              createTransport sdk cfg = Inl CannotDetermineTransport)))"
  by (auto simp: createTransport_def)

text \<open>
  The precedence at six descriptors: stdio fields next to an SSE URL, an SSE URL, an SSE
  URL that does not parse, a streamable HTTP URL, a WebSocket URL, and nothing at all.
\<close>

theorem createTransport_precedence_witness:
  "createTransport demo_sdk ((stdio_server ''run'')\<lparr>type := Some ''sse'', url := Some ''http://h''\<rparr>)
     = Inr (StdioClientTransport ''run'' [''hi''] None)
   \<and> createTransport demo_sdk (url_server ''sse'' ''http://h/sse'')
       = Inr (SSEClientTransport ''http://h/sse'')
   \<and> createTransport demo_sdk (url_server ''sse'' ''nope'') = Inl (InvalidURL ''nope'')
   \<and> createTransport demo_sdk (url_server ''streamable-http'' ''http://h/mcp'')
       = Inr (StreamableHTTPClientTransport ''http://h/mcp'')
   \<and> createTransport demo_sdk (ws_server ''ws://h'') = Inr (WebSocketClientTransport ''ws://h'')
   \<and> createTransport demo_sdk no_server = Inl CannotDetermineTransport"
  using
    createTransport_precedence [where sdk = demo_sdk and c = "''run''" and a = "[''hi'']"
      and cfg = "(stdio_server ''run'')\<lparr>type := Some ''sse'', url := Some ''http://h''\<rparr>"]
    createTransport_precedence [where sdk = demo_sdk and u = "''http://h/sse''"
      and cfg = "url_server ''sse'' ''http://h/sse''"]
    createTransport_precedence [where sdk = demo_sdk and u = "''nope''"
      and cfg = "url_server ''sse'' ''nope''"]
    createTransport_precedence [where sdk = demo_sdk and u = "''http://h/mcp''"
      and cfg = "url_server ''streamable-http'' ''http://h/mcp''"]
    createTransport_precedence [where sdk = demo_sdk and v = "''ws://h''"
      and cfg = "ws_server ''ws://h''"]
    createTransport_precedence [where sdk = demo_sdk and cfg = no_server]
  by (simp add: stdio_server_def url_server_def ws_server_def no_server_def demo_sdk_def)

section \<open>The default timeout\<close>

text \<open>
  Claim C10: a falsy \<^verbatim>\<open>maxToolTimeout\<close> (\<^verbatim>\<open>undefined\<close>, \<^verbatim>\<open>0\<close>, \<^verbatim>\<open>NaN\<close>) makes the
  constructor behave as if none was given, so the timeout stays at 10000 milliseconds;
  and no state that the constructor and the public methods can reach has a timeout of
  zero.
\<close>

theorem constructor_falsy_timeout:
  "(\<not> truthy_number t \<longrightarrow> constructor sdk arg t = constructor sdk arg None)
   \<and> (\<not> truthy_number t \<and> constructor sdk arg t = Inr w \<longrightarrow> maxToolTimeout w = Num 10000)
   \<and> (reachable w' \<longrightarrow> maxToolTimeout w' \<noteq> Num 0)"
proof -
  have 1: "constructor sdk arg t = constructor sdk arg None" if "\<not> truthy_number t"
  proof (cases t)
    case None
    then show ?thesis by simp
  next
    case (Some x)
    with that show ?thesis by (simp add: constructor_def Let_def split: sum.split)
  qed
  have "maxToolTimeout w = Num 10000" if "constructor sdk arg None = Inr w"
    using that
    by (auto simp: constructor_def Let_def split: option.splits sum.splits if_splits)
  with 1 reachable_timeout show ?thesis by auto
qed

text \<open>Constructing with a timeout of \<open>0\<close> or \<^verbatim>\<open>NaN\<close> gives the default.\<close>

theorem constructor_falsy_timeout_witness:
  "\<not> truthy_number (Some (Num 0))
   \<and> constructor demo_sdk (Some (Inr config_ab)) (Some (Num 0)) = Inr (new_world config_ab)
   \<and> maxToolTimeout (new_world config_ab) = Num 10000
   \<and> constructor demo_sdk (Some (Inr config_ab)) (Some NaN) = Inr (new_world config_ab)
   \<and> reachable world_ab \<and> maxToolTimeout world_ab \<noteq> Num 0"
proof -
  have f: "\<not> truthy_number (Some (Num 0))" "\<not> truthy_number (Some NaN)" by simp_all
  have c: "constructor demo_sdk (Some (Inr config_ab)) None = Inr (new_world config_ab)"
    by (simp add: constructor_def new_world_def)
  from constructor_falsy_timeout [of "Some (Num 0)" demo_sdk "Some (Inr config_ab)"
      "new_world config_ab" world_ab] f c reachable_world_ab
  have "constructor demo_sdk (Some (Inr config_ab)) (Some (Num 0)) = Inr (new_world config_ab)"
    "maxToolTimeout (new_world config_ab) = Num 10000" "maxToolTimeout world_ab \<noteq> Num 0"
    by simp_all
  moreover from constructor_falsy_timeout [of "Some NaN" demo_sdk "Some (Inr config_ab)"] f c
  have "constructor demo_sdk (Some (Inr config_ab)) (Some NaN) = Inr (new_world config_ab)"
    by simp
  ultimately show ?thesis using f reachable_world_ab by simp
qed

section \<open>Active names and the registry\<close>

text \<open>
  Claim C6: in every reachable state each name in \<^verbatim>\<open>activeSessions\<close> has an entry in
  \<^verbatim>\<open>sessions\<close>; the converse fails in some reachable state (after \<^verbatim>\<open>removeServer\<close> the
  session of the removed server is still in the map).
\<close>

theorem registry_invariant:
  "(reachable w \<longrightarrow> set (activeSessions w) \<subseteq> fst ` set (sessions w))
   \<and> (\<exists>w'. reachable w' \<and> \<not> fst ` set (sessions w') \<subseteq> set (activeSessions w'))"
proof -
  have "\<not> fst ` set (sessions world_b) \<subseteq> set (activeSessions world_b)"
    by (simp add: world_b_eval)
  with reachable_world_b
  have "\<exists>w'. reachable w' \<and> \<not> fst ` set (sessions w') \<subseteq> set (activeSessions w')"
    by (intro exI [of _ world_b]) simp
  moreover have "reachable w \<longrightarrow> set (activeSessions w) \<subseteq> fst ` set (sessions w)"
    using reachable_registry_ok [of w] by (simp add: registry_ok_def)
  ultimately show ?thesis by simp
qed

text \<open>The invariant in the state reached by removing \<^verbatim>\<open>a\<close> after a bulk creation.\<close>

theorem registry_invariant_witness:
  "reachable world_b
   \<and> set (activeSessions world_b) \<subseteq> fst ` set (sessions world_b)
   \<and> activeSessions world_b = [''b'']
   \<and> map fst (sessions world_b) = [''a'', ''b'']"
proof -
  from registry_invariant [of world_b] reachable_world_b
  have "set (activeSessions world_b) \<subseteq> fst ` set (sessions world_b)" by simp
  moreover have "activeSessions world_b = [''b'']" "map fst (sessions world_b) = [''a'', ''b'']"
    by (simp_all add: world_b_eval)
  ultimately show ?thesis using reachable_world_b by simp
qed

section \<open>Closing sessions\<close>

text \<open>
  Claim C7: closing a name that has no session raises nothing and changes nothing but the
  console (one warning); closing a tracked session calls \<^verbatim>\<open>close\<close> on it, raises
  nothing whether or not that call fails, and leaves the name in neither \<^verbatim>\<open>sessions\<close>
  nor \<^verbatim>\<open>activeSessions\<close>.
\<close>

theorem closeSession_cleanup:
  "(map_of (sessions w) n = None \<longrightarrow>
      closeSession sdk n w = (Inr (), w\<lparr>console := console w @ [Warn_no_session n]\<rparr>))
   \<and> (reachable w \<and> map_of (sessions w) n = Some c \<and> closeSession sdk n w = (r, w') \<longrightarrow>
        r = Inr ()
        \<and> n \<notin> fst ` set (sessions w') \<and> n \<notin> set (activeSessions w')
        \<and> sessions w' = AList.delete n (sessions w)
        \<and> activeSessions w' = remove1 n (activeSessions w)
        \<and> calls w' = calls w @ [Close c]
        \<and> config w' = config w \<and> toolServerMap w' = toolServerMap w)"
proof -
  have 1: "closeSession sdk n w = (Inr (), w\<lparr>console := console w @ [Warn_no_session n]\<rparr>)"
    if "map_of (sessions w) n = None"
    using that by (simp add: closeSession_def)
  have 2: "r = Inr ()
        \<and> n \<notin> fst ` set (sessions w') \<and> n \<notin> set (activeSessions w')
        \<and> sessions w' = AList.delete n (sessions w)
        \<and> activeSessions w' = remove1 n (activeSessions w)
        \<and> calls w' = calls w @ [Close c]
        \<and> config w' = config w \<and> toolServerMap w' = toolServerMap w"
    if r: "reachable w" and s: "map_of (sessions w) n = Some c"
      and cl: "closeSession sdk n w = (r, w')"
  proof -
    from reachable_registry_ok [OF r] have d: "distinct (activeSessions w)"
      by (simp add: registry_ok_def)
    have w': "w' = snd (closeSession sdk n w)" and r': "r = fst (closeSession sdk n w)"
      using cl by simp_all
    have "calls w' = calls w @ [Close c]"
      using s unfolding w' by (simp add: closeSession_def Let_def split: option.split)
    moreover have "n \<notin> set (remove1 n (activeSessions w))"
      using d by simp
    ultimately show ?thesis
      using s unfolding w' r'
      by (simp add: closeSession_returns closeSession_sessions closeSession_active
            closeSession_frame delete_keys_set)
  qed
  from 1 2 show ?thesis by blast
qed

text \<open>
  In the world with both servers connected: closing the unknown \<^verbatim>\<open>q\<close> only warns;
  closing \<^verbatim>\<open>b\<close>, whose \<^verbatim>\<open>close\<close> fails, still removes it.
\<close>

theorem closeSession_cleanup_witness:
  "map_of (sessions world_ab) ''q'' = None
   \<and> closeSession demo_sdk ''q'' world_ab =
       (Inr (), world_ab\<lparr>console := console world_ab @ [Warn_no_session ''q'']\<rparr>)
   \<and> reachable world_ab
   \<and> map_of (sessions world_ab) ''b'' = Some (stdio_session 1 ''b'')
   \<and> sdk_close demo_sdk (stdio_session 1 ''b'') = Some ''broken pipe''
   \<and> fst (closeSession demo_sdk ''b'' world_ab) = Inr ()
   \<and> sessions (snd (closeSession demo_sdk ''b'' world_ab)) = [(''a'', stdio_session 0 ''a'')]
   \<and> activeSessions (snd (closeSession demo_sdk ''b'' world_ab)) = [''a'']"
proof -
  have q: "map_of (sessions world_ab) ''q'' = None"
    and b: "map_of (sessions world_ab) ''b'' = Some (stdio_session 1 ''b'')"
    by (simp_all add: world_ab_eval)
  have f: "sdk_close demo_sdk (stdio_session 1 ''b'') = Some ''broken pipe''"
    by (simp add: demo_sdk_def stdio_session_def)
  have p: "closeSession demo_sdk ''b'' world_ab =
      (fst (closeSession demo_sdk ''b'' world_ab), snd (closeSession demo_sdk ''b'' world_ab))"
    by simp
  from closeSession_cleanup [of world_ab "''q''" demo_sdk] q
  have 1: "closeSession demo_sdk ''q'' world_ab =
       (Inr (), world_ab\<lparr>console := console world_ab @ [Warn_no_session ''q'']\<rparr>)"
    by simp
  from closeSession_cleanup [of world_ab "''b''" demo_sdk "stdio_session 1 ''b''"
      "fst (closeSession demo_sdk ''b'' world_ab)" "snd (closeSession demo_sdk ''b'' world_ab)"]
    reachable_world_ab b p
  have 2: "fst (closeSession demo_sdk ''b'' world_ab) = Inr ()"
    "sessions (snd (closeSession demo_sdk ''b'' world_ab)) = AList.delete ''b'' (sessions world_ab)"
    "activeSessions (snd (closeSession demo_sdk ''b'' world_ab)) =
       remove1 ''b'' (activeSessions world_ab)"
    by blast+
  from 2(2,3) have
    "sessions (snd (closeSession demo_sdk ''b'' world_ab)) = [(''a'', stdio_session 0 ''a'')]"
    "activeSessions (snd (closeSession demo_sdk ''b'' world_ab)) = [''a'']"
    by (simp_all add: world_ab_eval)
  with q b f 1 2(1) reachable_world_ab show ?thesis by simp
qed

text \<open>
  Claim C8: closing all sessions raises nothing and empties both \<^verbatim>\<open>sessions\<close> and
  \<^verbatim>\<open>activeSessions\<close>, whatever the individual \<^verbatim>\<open>close\<close> calls answer.
\<close>

theorem closeAllSessions_clears:
  assumes "reachable w" and "closeAllSessions sdk w = (r, w')"
  shows "r = Inr () \<and> sessions w' = [] \<and> activeSessions w' = []"
proof -
  let ?w = "snd (closeEach sdk (map fst (sessions w)) [] w)"
  have w': "w' = ?w\<lparr>console := console ?w @ [Debug_all_closed]\<rparr>"
    using closeAllSessions_snd [of sdk w] assms(2) by simp
  have r: "r = Inr ()"
    using assms(2) by (auto simp: closeAllSessions_def split: prod.splits)
  have "fst ` set (sessions ?w) = {}"
    by (simp add: closeEach_sessions)
  then have s: "sessions ?w = []" by simp
  have "registry_ok ?w"
    by (rule closeEach_ok) (rule reachable_registry_ok [OF assms(1)])
  then have "set (activeSessions ?w) \<subseteq> fst ` set (sessions ?w)"
    by (simp add: registry_ok_def)
  with s have "activeSessions ?w = []" by simp
  with s r w' show ?thesis by simp
qed

text \<open>Both sessions go although closing \<^verbatim>\<open>b\<close> fails.\<close>

theorem closeAllSessions_clears_witness:
  "reachable world_ab
   \<and> sdk_close demo_sdk (stdio_session 1 ''b'') = Some ''broken pipe''
   \<and> fst (closeAllSessions demo_sdk world_ab) = Inr ()
   \<and> sessions (snd (closeAllSessions demo_sdk world_ab)) = []
   \<and> activeSessions (snd (closeAllSessions demo_sdk world_ab)) = []"
proof -
  have f: "sdk_close demo_sdk (stdio_session 1 ''b'') = Some ''broken pipe''"
    by (simp add: demo_sdk_def stdio_session_def)
  have p: "closeAllSessions demo_sdk world_ab =
      (fst (closeAllSessions demo_sdk world_ab), snd (closeAllSessions demo_sdk world_ab))"
    by simp
  from closeAllSessions_clears [OF reachable_world_ab p] f reachable_world_ab
  show ?thesis by simp
qed

section \<open>Removing a server\<close>



section \<open>Bulk creation\<close>

lemma createAllSessions_Inr:
  assumes "createAllSessions sdk w = (Inr m, w')"
  shows "\<exists>w1 w2 idx.
           createSessions sdk (getServerNames w) w = (Inr (), w1)
           \<and> getToolServerMap sdk w1 = (Inr idx, w2)
           \<and> w' = w2\<lparr>toolServerMap := idx\<rparr> \<and> m = sessions w2"
  using assms
  by (auto simp: createAllSessions_def getServerNames_def servers_of_def
           split: option.splits if_splits prod.splits sum.splits)

lemma createAllSessions_Inl:
  assumes "createSessions sdk (getServerNames w) w = (Inl e, w1)"
  shows "createAllSessions sdk w = (Inl e, w1)"
proof (cases "mcpServers (config w)")
  case None
  with assms show ?thesis by (simp add: getServerNames_def servers_of_def)
next
  case (Some servers)
  with assms have "servers \<noteq> []" by (auto simp: getServerNames_def servers_of_def)
  with Some assms show ?thesis
    by (simp add: createAllSessions_def getServerNames_def servers_of_def)
qed

text \<open>
  Claim C4: with no \<^verbatim>\<open>mcpServers\<close> or an empty one, bulk creation fails with the
  error \<^verbatim>\<open>No MCP servers defined in config\<close> (a \<^verbatim>\<open>NotFoundError\<close> in the words of
  the specification) and the state is untouched. When the servers \<open>pre\<close> are created and
  the creation of the next one, \<open>n\<close>, fails, bulk creation stops there with that error:
  the sessions of \<open>pre\<close> are in \<^verbatim>\<open>sessions\<close> and in \<^verbatim>\<open>activeSessions\<close>, the index is not
  rebuilt, and the only calls made are the \<^verbatim>\<open>connect\<close> calls for \<open>pre\<close> and possibly
  for \<open>n\<close>: nothing is closed and nothing is attempted for the servers after \<open>n\<close>.
\<close>

theorem createAllSessions_failure:
  "(mcpServers (config w) = None \<or> mcpServers (config w) = Some [] \<longrightarrow>
      createAllSessions sdk w = (Inl NoServersDefined, w))
   \<and> (getServerNames w = pre @ n # post
      \<and> createSessions sdk pre w = (Inr (), w1)
      \<and> createSession sdk n w1 = (Inl e, w2) \<longrightarrow>
        createAllSessions sdk w = (Inl e, w2)
        \<and> set pre \<subseteq> fst ` set (sessions w2) \<and> set pre \<subseteq> set (activeSessions w2)
        \<and> sessions w2 = sessions w1 \<and> activeSessions w2 = activeSessions w1
        \<and> toolServerMap w2 = toolServerMap w
        \<and> (\<exists>cs. calls w2 = calls w @ map Connect cs
                \<and> (map client_name cs = pre \<or> map client_name cs = pre @ [n])))"
proof -
  have 1: "createAllSessions sdk w = (Inl NoServersDefined, w)"
    if "mcpServers (config w) = None \<or> mcpServers (config w) = Some []"
    using that by (auto simp: createAllSessions_def)
  have 2: "createAllSessions sdk w = (Inl e, w2)
        \<and> set pre \<subseteq> fst ` set (sessions w2) \<and> set pre \<subseteq> set (activeSessions w2)
        \<and> sessions w2 = sessions w1 \<and> activeSessions w2 = activeSessions w1
        \<and> toolServerMap w2 = toolServerMap w
        \<and> (\<exists>cs. calls w2 = calls w @ map Connect cs
                \<and> (map client_name cs = pre \<or> map client_name cs = pre @ [n]))"
    if names: "getServerNames w = pre @ n # post"
      and created: "createSessions sdk pre w = (Inr (), w1)"
      and failed: "createSession sdk n w1 = (Inl e, w2)"
  proof -
    have "createSessions sdk (pre @ n # post) w = (Inl e, w2)"
      using created failed by (simp add: createSessions_append)
    with names have a: "createAllSessions sdk w = (Inl e, w2)"
      by (simp add: createAllSessions_Inl)
    from createSessions_Inr [OF created] obtain cs where
      p: "set (activeSessions w1) = set (activeSessions w) \<union> set pre"
         "fst ` set (sessions w1) = fst ` set (sessions w) \<union> set pre"
         "calls w1 = calls w @ map Connect cs" "map client_name cs = pre"
      by blast
    note f = createSession_Inl [OF failed]
    have t: "toolServerMap w2 = toolServerMap w"
      using createSessions_frame [of sdk pre w] createSession_frame(2) [of sdk n w1]
        created failed by simp
    have "\<exists>cs. calls w2 = calls w @ map Connect cs
            \<and> (map client_name cs = pre \<or> map client_name cs = pre @ [n])"
    proof (rule disjE [OF f(3)])
      assume "calls w2 = calls w1"
      with p(3,4) show ?thesis by (intro exI [of _ cs]) simp
    next
      assume "\<exists>c. calls w2 = calls w1 @ [Connect c] \<and> client_name c = n"
      then obtain c where "calls w2 = calls w1 @ [Connect c]" "client_name c = n" by blast
      with p(3,4) show ?thesis by (intro exI [of _ "cs @ [c]"]) simp
    qed
    with a p(1,2) f(1,2) t show ?thesis by simp
  qed
  from 1 2 show ?thesis by blast
qed

text \<open>
  With no configuration nothing happens; with three servers of which the second refuses
  the connection, the first stays connected and the third is never tried.
\<close>

theorem createAllSessions_failure_witness:
  "createAllSessions demo_sdk (new_world \<lparr>mcpServers = None, mcpServers_proto = None\<rparr>) =
     (Inl NoServersDefined, new_world \<lparr>mcpServers = None, mcpServers_proto = None\<rparr>)
   \<and> getServerNames (new_world config_refusing) = [''a''] @ ''z'' # [''c'']
   \<and> fst (createAllSessions demo_sdk (new_world config_refusing)) = Inl (Rejected ''refused'')
   \<and> sessions (snd (createAllSessions demo_sdk (new_world config_refusing))) =
       [(''a'', stdio_session 0 ''a'')]
   \<and> activeSessions (snd (createAllSessions demo_sdk (new_world config_refusing))) = [''a'']
   \<and> calls (snd (createAllSessions demo_sdk (new_world config_refusing))) =
       [Connect (stdio_session 0 ''a''),
        Connect (MCPClientSDK 1 ''z'' ''1.0.0'' (StdioClientTransport ''bad'' [''hi''] None))]"
proof -
  let ?w = "new_world config_refusing"
  let ?w1 = "?w\<lparr>sessions := [(''a'', stdio_session 0 ''a'')], activeSessions := [''a''],
                calls := [Connect (stdio_session 0 ''a'')]\<rparr>"
  let ?w2 = "?w1\<lparr>calls := [Connect (stdio_session 0 ''a''),
        Connect (MCPClientSDK 1 ''z'' ''1.0.0'' (StdioClientTransport ''bad'' [''hi''] None))]\<rparr>"
  have n: "getServerNames ?w = [''a''] @ ''z'' # [''c'']"
    by (simp add: getServerNames_def servers_of_def config_refusing_def demo_defs)
  have c: "createSessions demo_sdk [''a''] ?w = (Inr (), ?w1)"
    by (simp add: config_refusing_def op_defs obj_defs demo_defs)
  have f: "createSession demo_sdk ''z'' ?w1 = (Inl (Rejected ''refused''), ?w2)"
    by (simp add: config_refusing_def op_defs obj_defs demo_defs)
  from createAllSessions_failure [of "new_world \<lparr>mcpServers = None, mcpServers_proto = None\<rparr>" demo_sdk]
  have 1: "createAllSessions demo_sdk (new_world \<lparr>mcpServers = None, mcpServers_proto = None\<rparr>) =
     (Inl NoServersDefined, new_world \<lparr>mcpServers = None, mcpServers_proto = None\<rparr>)"
    by (simp add: new_world_def)
  from createAllSessions_failure [of ?w demo_sdk "[''a'']" "''z''" "[''c'']" ?w1
      "Rejected ''refused''" ?w2] n c f
  have "createAllSessions demo_sdk ?w = (Inl (Rejected ''refused''), ?w2)"
    by blast
  with 1 n show ?thesis by (simp add: new_world_def)
qed

text \<open>
  What the active sessions are after a successful bulk creation, in a reachable state:
  the names that were active before it and the configured names, without repetition, and
  each configured name has the session that the registry holds for it. They are exactly
  the configured names when no other name was active before.
\<close>

lemma createAllSessions_active_keys:
  assumes "reachable w" and "createAllSessions sdk w = (Inr m, w')"
  shows "fst ` set (getAllActiveSessions w') = set (activeSessions w) \<union> set (getServerNames w')
     \<and> distinct (map fst (getAllActiveSessions w'))
     \<and> (\<forall>n \<in> set (getServerNames w').
          \<exists>s. map_of (getAllActiveSessions w') n = Some s \<and> map_of (sessions w') n = Some s)"
proof -
  from createAllSessions_Inr [OF assms(2)] obtain w1 w2 idx where
    c: "createSessions sdk (getServerNames w) w = (Inr (), w1)" and
    g: "getToolServerMap sdk w1 = (Inr idx, w2)" and
    w': "w' = w2\<lparr>toolServerMap := idx\<rparr>"
    by blast
  have ok: "registry_ok w" by (rule reachable_registry_ok [OF assms(1)])
  have ok1: "registry_ok w1"
    using createSessions_ok [OF ok, of sdk "getServerNames w"] c by simp
  have fr1: "config w1 = config w"
    using createSessions_frame [of sdk "getServerNames w" w] c by simp
  have fr2: "config w2 = config w1" "sessions w2 = sessions w1"
    "activeSessions w2 = activeSessions w1"
    using getToolServerMap_frame [of sdk w1] g by simp_all
  have names: "getServerNames w' = getServerNames w"
    using w' fr1 fr2 by (simp add: getServerNames_def servers_of_def)
  have act: "set (activeSessions w') = set (activeSessions w) \<union> set (getServerNames w)"
    using createSessions_Inr [OF c] w' fr2 by simp
  have sub: "set (activeSessions w') \<subseteq> fst ` set (sessions w')"
    using ok1 w' fr2 by (simp add: registry_ok_def)
  have some: "\<exists>s. map_of (sessions w') k = Some s" if "k \<in> set (activeSessions w')" for k
    using that sub by (auto intro: keys_map_of)
  have "fst ` set (getAllActiveSessions w') = set (activeSessions w')"
    using some by (auto simp: getAllActiveSessions_keys)
  moreover have "\<forall>k \<in> set (getServerNames w').
      \<exists>s. map_of (getAllActiveSessions w') k = Some s \<and> map_of (sessions w') k = Some s"
  proof
    fix k
    assume "k \<in> set (getServerNames w')"
    with act names have "k \<in> set (activeSessions w')" by simp
    with some [of k] show
      "\<exists>s. map_of (getAllActiveSessions w') k = Some s \<and> map_of (sessions w') k = Some s"
      by (simp add: getAllActiveSessions_map_of)
  qed
  moreover note getAllActiveSessions_distinct [of w']
  ultimately show ?thesis
    using act names by simp
qed

lemma world_proto_eval:
  "world_proto =
     \<lparr>config = \<lparr>mcpServers = Some [(''a'', stdio_server ''run'')],
                mcpServers_proto = Some env_descriptor\<rparr>,
      sessions = [], activeSessions = [], toolServerMap = [],
      maxToolTimeout = Num 10000, calls = [], console = []\<rparr>"
  by (simp add: world_proto_def addServer_def servers_of_def config_a_def new_world_def Let_def)

lemma world_env_run:
  "createSession demo_sdk ''env'' world_proto =
     (Inr (MCPClientSDK 0 ''env'' ''1.0.0'' (WebSocketClientTransport ''ws://h'')),
      \<lparr>config = \<lparr>mcpServers = Some [(''a'', stdio_server ''run'')],
                 mcpServers_proto = Some env_descriptor\<rparr>,
       sessions = [(''env'', MCPClientSDK 0 ''env'' ''1.0.0'' (WebSocketClientTransport ''ws://h''))],
       activeSessions = [''env''], toolServerMap = [],
       maxToolTimeout = Num 10000,
       calls = [Connect (MCPClientSDK 0 ''env'' ''1.0.0'' (WebSocketClientTransport ''ws://h''))],
       console = []\<rparr>)"
  by (simp add: world_proto_eval env_descriptor_def op_defs obj_defs demo_defs)

lemma world_env_eval:
  "world_env =
     \<lparr>config = \<lparr>mcpServers = Some [(''a'', stdio_server ''run'')],
                mcpServers_proto = Some env_descriptor\<rparr>,
      sessions = [(''env'', MCPClientSDK 0 ''env'' ''1.0.0'' (WebSocketClientTransport ''ws://h''))],
      activeSessions = [''env''], toolServerMap = [],
      maxToolTimeout = Num 10000,
      calls = [Connect (MCPClientSDK 0 ''env'' ''1.0.0'' (WebSocketClientTransport ''ws://h''))],
      console = []\<rparr>"
  by (simp add: world_env_def world_env_run)

lemma world_env_all_run:
  "createAllSessions demo_sdk world_env =
     (Inr [(''env'', MCPClientSDK 0 ''env'' ''1.0.0'' (WebSocketClientTransport ''ws://h'')),
           (''a'', stdio_session 1 ''a'')],
      \<lparr>config = \<lparr>mcpServers = Some [(''a'', stdio_server ''run'')],
                 mcpServers_proto = Some env_descriptor\<rparr>,
       sessions =
         [(''env'', MCPClientSDK 0 ''env'' ''1.0.0'' (WebSocketClientTransport ''ws://h'')),
          (''a'', stdio_session 1 ''a'')],
       activeSessions = [''env'', ''a''],
       toolServerMap = [(''y'', ''env''), (''s'', ''a''), (''x'', ''a'')],
       maxToolTimeout = Num 10000,
       calls =
         [Connect (MCPClientSDK 0 ''env'' ''1.0.0'' (WebSocketClientTransport ''ws://h'')),
          Connect (stdio_session 1 ''a''),
          ListTools (MCPClientSDK 0 ''env'' ''1.0.0'' (WebSocketClientTransport ''ws://h'')),
          ListTools (stdio_session 1 ''a'')],
       console = []\<rparr>)"
  by (simp add: world_env_eval op_defs obj_defs demo_defs)

text \<open>
  Claim C5 where a session was created for an inherited name. The configuration has
  the one server \<^verbatim>\<open>a\<close>. Adding a descriptor under the name \<^verbatim>\<open>__proto__\<close> adds no
  server name but makes that descriptor the prototype of the servers object, so that
  \<^verbatim>\<open>servers["env"]\<close> finds its \<^verbatim>\<open>env\<close> record; \<^verbatim>\<open>createSession("env")\<close> takes the record
  for a descriptor, connects over its \<^verbatim>\<open>ws_url\<close> and marks \<^verbatim>\<open>env\<close> active. The bulk
  creation that follows succeeds, and the active sessions are then \<^verbatim>\<open>env\<close> and \<^verbatim>\<open>a\<close>,
  while the only configured name is still \<^verbatim>\<open>a\<close>.
\<close>

theorem createAllSessions_inherited_name:
  "getServerNames (new_world config_a) = [''a'']
   \<and> getServerNames world_proto = [''a'']
   \<and> mcpServers_proto (config world_proto) = Some env_descriptor
   \<and> createSession demo_sdk ''env'' world_proto =
       (Inr (MCPClientSDK 0 ''env'' ''1.0.0'' (WebSocketClientTransport ''ws://h'')), world_env)
   \<and> createAllSessions demo_sdk world_env = (Inr (sessions world_env_all), world_env_all)
   \<and> getServerNames world_env_all = [''a'']
   \<and> map fst (getAllActiveSessions world_env_all) = [''env'', ''a'']"
proof -
  have 1: "getServerNames (new_world config_a) = [''a'']"
    by (simp add: getServerNames_def servers_of_def new_world_def config_a_def)
  have 2: "getServerNames world_proto = [''a'']"
    "mcpServers_proto (config world_proto) = Some env_descriptor"
    by (simp_all add: world_proto_eval getServerNames_def servers_of_def)
  have 3: "createSession demo_sdk ''env'' world_proto =
       (Inr (MCPClientSDK 0 ''env'' ''1.0.0'' (WebSocketClientTransport ''ws://h'')), world_env)"
    by (simp add: world_env_run world_env_eval)
  have a: "world_env_all = snd (createAllSessions demo_sdk world_env)"
    by (simp add: world_env_all_def)
  have 4: "createAllSessions demo_sdk world_env = (Inr (sessions world_env_all), world_env_all)"
    unfolding a by (simp add: world_env_all_run)
  have 5: "getServerNames world_env_all = [''a'']"
    unfolding a by (simp add: world_env_all_run getServerNames_def servers_of_def)
  have 6: "map fst (getAllActiveSessions world_env_all) = [''env'', ''a'']"
    unfolding a by (simp add: world_env_all_run getAllActiveSessions_def)
  show ?thesis using 1 2 3 4 5 6 by simp
qed

section \<open>The tool index\<close>

lemma reachable_world_rescan: "reachable world_rescan"
  unfolding world_rescan_def by (rule reachable.createAllSessions) (rule reachable_world_b)

lemma world_rescan_run:
  "createAllSessions demo_sdk world_b =
     (Inr [(''a'', stdio_session 0 ''a''), (''b'', stdio_session 4 ''b'')],
      \<lparr>config = \<lparr>mcpServers = Some [(''b'', stdio_server ''run'')], mcpServers_proto = None\<rparr>,
       sessions = [(''a'', stdio_session 0 ''a''), (''b'', stdio_session 4 ''b'')],
       activeSessions = [''b''],
       toolServerMap = [(''x'', ''a''), (''s'', ''b''), (''y'', ''b'')],
       maxToolTimeout = Num 10000,
       calls =
         [Connect (stdio_session 0 ''a''), Connect (stdio_session 1 ''b''),
          ListTools (stdio_session 0 ''a''), ListTools (stdio_session 1 ''b''),
          Connect (stdio_session 4 ''b''),
          ListTools (stdio_session 0 ''a''), ListTools (stdio_session 4 ''b'')],
       console = []\<rparr>)"
  by (simp add: world_b_eval op_defs obj_defs demo_defs)

lemma world_rescan_eval:
  "world_rescan =
     \<lparr>config = \<lparr>mcpServers = Some [(''b'', stdio_server ''run'')], mcpServers_proto = None\<rparr>,
      sessions = [(''a'', stdio_session 0 ''a''), (''b'', stdio_session 4 ''b'')],
      activeSessions = [''b''],
      toolServerMap = [(''x'', ''a''), (''s'', ''b''), (''y'', ''b'')],
      maxToolTimeout = Num 10000,
      calls =
        [Connect (stdio_session 0 ''a''), Connect (stdio_session 1 ''b''),
         ListTools (stdio_session 0 ''a''), ListTools (stdio_session 1 ''b''),
         Connect (stdio_session 4 ''b''),
         ListTools (stdio_session 0 ''a''), ListTools (stdio_session 4 ''b'')],
      console = []\<rparr>"
  by (simp add: world_rescan_def world_rescan_run)

text \<open>
  Claim C1 as stated fails. After \<^verbatim>\<open>removeServer("a")\<close> the session of \<^verbatim>\<open>a\<close> is still in
  \<^verbatim>\<open>sessions\<close> but \<^verbatim>\<open>a\<close> is no longer in \<^verbatim>\<open>activeSessions\<close>; the next bulk creation
  rebuilds the index from every entry of \<^verbatim>\<open>sessions\<close>, so the index routes the tool
  \<^verbatim>\<open>x\<close> to \<^verbatim>\<open>a\<close>, while a rebuild over \<^verbatim>\<open>activeSessions\<close> would not know \<^verbatim>\<open>x\<close>.
\<close>

theorem toolServerMap_inactive_server_counterexample:
  "createAllSessions demo_sdk world_b = (Inr (sessions world_rescan), world_rescan)
   \<and> activeSessions world_rescan = [''b'']
   \<and> toolServerMap world_rescan = [(''x'', ''a''), (''s'', ''b''), (''y'', ''b'')]
   \<and> rebuild_spec demo_sdk world_rescan = [(''y'', ''b''), (''s'', ''b'')]"
proof -
  have 1: "createAllSessions demo_sdk world_b = (Inr (sessions world_rescan), world_rescan)"
    by (simp add: world_rescan_run world_rescan_eval)
  have 2: "activeSessions world_rescan = [''b'']"
    "toolServerMap world_rescan = [(''x'', ''a''), (''s'', ''b''), (''y'', ''b'')]"
    by (simp_all add: world_rescan_eval)
  have 3: "rebuild_spec demo_sdk world_rescan = [(''y'', ''b''), (''s'', ''b'')]"
    by (simp add: world_rescan_eval rebuild_spec_def demo_sdk_def stdio_session_def a_tool_def)
  show ?thesis using 1 2 3 by simp
qed

text \<open>
  Claim C1, amended: the rebuild queries the catalog of every entry of the \<^verbatim>\<open>sessions\<close>
  map, in the order of the map, and a successful rebuild gives an index with one entry
  per tool name: the name is mapped to the last entry of \<^verbatim>\<open>sessions\<close> whose catalog
  lists it, and is absent exactly when no entry lists it. A successful
  \<^verbatim>\<open>createAllSessions\<close> installs that index, built over the \<^verbatim>\<open>sessions\<close> of the state it
  returns; in a reachable state every active server is among those entries.
\<close>

theorem getToolServerMap_last_scanned:
  "(getToolServerMap sdk w = (Inr idx, w1) \<longrightarrow>
      distinct (map fst idx)
      \<and> (\<forall>t. map_of idx t = last_lister sdk t (sessions w))
      \<and> (\<forall>t. map_of idx t = None \<longleftrightarrow> (\<forall>e \<in> set (sessions w). \<not> lists_tool sdk t e))
      \<and> calls w1 = calls w @ map (\<lambda>e. ListTools (snd e)) (sessions w))
   \<and> (reachable w \<and> createAllSessions sdk w = (Inr m, w') \<longrightarrow>
      (\<forall>t. map_of (toolServerMap w') t = last_lister sdk t (sessions w'))
      \<and> set (activeSessions w') \<subseteq> fst ` set (sessions w'))"
proof -
  have scan: "distinct (map fst idx) \<and> (\<forall>t. map_of idx t = last_lister sdk t (sessions w))
      \<and> calls w1 = calls w @ map (\<lambda>e. ListTools (snd e)) (sessions w)"
    if "getToolServerMap sdk w = (Inr idx, w1)" for w idx w1
  proof -
    from that have s: "scanTools sdk (sessions w) [] w = (Inr idx, w1)"
      by (simp add: getToolServerMap_def)
    have "(case last_lister sdk t (sessions w) of None \<Rightarrow> map_of [] t | Some m \<Rightarrow> Some m)
        = last_lister sdk t (sessions w)" for t
      by (simp split: option.split)
    with scanTools_Inr [OF s] show ?thesis by simp
  qed
  have 1: "distinct (map fst idx)
      \<and> (\<forall>t. map_of idx t = last_lister sdk t (sessions w))
      \<and> (\<forall>t. map_of idx t = None \<longleftrightarrow> (\<forall>e \<in> set (sessions w). \<not> lists_tool sdk t e))
      \<and> calls w1 = calls w @ map (\<lambda>e. ListTools (snd e)) (sessions w)"
    if "getToolServerMap sdk w = (Inr idx, w1)"
    using scan [OF that] by (simp add: last_lister_None)
  have 2: "(\<forall>t. map_of (toolServerMap w') t = last_lister sdk t (sessions w'))
      \<and> set (activeSessions w') \<subseteq> fst ` set (sessions w')"
    if r: "reachable w" and c: "createAllSessions sdk w = (Inr m, w')"
  proof -
    from createAllSessions_Inr [OF c] obtain v1 v2 idx' where
      g: "getToolServerMap sdk v1 = (Inr idx', v2)" and
      w': "w' = v2\<lparr>toolServerMap := idx'\<rparr>"
      by blast
    have "sessions v2 = sessions v1"
      using getToolServerMap_frame [of sdk v1] g by simp
    with scan [OF g] w' have "\<forall>t. map_of (toolServerMap w') t = last_lister sdk t (sessions w')"
      by simp
    moreover have "reachable (snd (createAllSessions sdk w))"
      using r by (rule reachable.createAllSessions)
    with c have "registry_ok w'"
      using reachable_registry_ok [of w'] by simp
    ultimately show ?thesis by (simp add: registry_ok_def)
  qed
  from 1 2 show ?thesis by blast
qed

text \<open>
  Both servers list the tool \<^verbatim>\<open>s\<close>; the index gives it to \<^verbatim>\<open>b\<close>, the later entry of
  \<^verbatim>\<open>sessions\<close>, and gives \<^verbatim>\<open>x\<close> to \<^verbatim>\<open>a\<close>, the only server that lists it.
\<close>

theorem getToolServerMap_last_scanned_witness:
  "reachable world_b
   \<and> createAllSessions demo_sdk world_b = (Inr (sessions world_rescan), world_rescan)
   \<and> map fst (sessions world_rescan) = [''a'', ''b'']
   \<and> lists_tool demo_sdk ''s'' (''a'', stdio_session 0 ''a'')
   \<and> lists_tool demo_sdk ''s'' (''b'', stdio_session 4 ''b'')
   \<and> map_of (toolServerMap world_rescan) ''s'' = Some ''b''
   \<and> map_of (toolServerMap world_rescan) ''x'' = Some ''a''
   \<and> map_of (toolServerMap world_rescan) ''q'' = None"
proof -
  have c: "createAllSessions demo_sdk world_b = (Inr (sessions world_rescan), world_rescan)"
    by (simp add: world_rescan_run world_rescan_eval)
  have l: "last_lister demo_sdk ''s'' (sessions world_rescan) = Some ''b''"
    "last_lister demo_sdk ''x'' (sessions world_rescan) = Some ''a''"
    "last_lister demo_sdk ''q'' (sessions world_rescan) = None"
    by (simp_all add: world_rescan_eval last_lister_def lists_tool_def demo_sdk_def
          stdio_session_def a_tool_def)
  have t: "lists_tool demo_sdk ''s'' (''a'', stdio_session 0 ''a'')"
    "lists_tool demo_sdk ''s'' (''b'', stdio_session 4 ''b'')"
    by (simp_all add: lists_tool_def demo_sdk_def stdio_session_def a_tool_def)
  from getToolServerMap_last_scanned [of demo_sdk world_b _ _ "sessions world_rescan" world_rescan]
    reachable_world_b c
  have "\<forall>t. map_of (toolServerMap world_rescan) t = last_lister demo_sdk t (sessions world_rescan)"
    by blast
  with l have "map_of (toolServerMap world_rescan) ''s'' = Some ''b''"
    "map_of (toolServerMap world_rescan) ''x'' = Some ''a''"
    "map_of (toolServerMap world_rescan) ''q'' = None"
    by simp_all
  moreover have "map fst (sessions world_rescan) = [''a'', ''b'']"
    by (simp add: world_rescan_eval)
  ultimately show ?thesis using reachable_world_b c t by simp
qed

section \<open>Dispatch\<close>

text \<open>
  What \<^verbatim>\<open>callTool\<close> does for a tool name: without an index entry it fails with
  \<^verbatim>\<open>No server found for tool\<close>, calls no session and leaves the state as it was; with
  an entry for a server of non-empty name it fails with \<^verbatim>\<open>No session found for server\<close>,
  again without a call or a change, when the registry has no session of that name, and
  otherwise forwards the call to that session with the timeout \<^verbatim>\<open>maxToolTimeout\<close>,
  returning what the session answers.
\<close>

lemma callTool_dispatch:
  "(map_of (toolServerMap w) n = None \<longrightarrow> callTool sdk n a w = (Inl (NoServerForTool n), w))
   \<and> (map_of (toolServerMap w) n = Some srv \<and> srv \<noteq> [] \<longrightarrow>
        (map_of (sessions w) srv = None \<longrightarrow> callTool sdk n a w = (Inl (NoSessionFound srv), w))
      \<and> (map_of (sessions w) srv = Some s \<longrightarrow>
           callTool sdk n a w =
             (case sdk_callTool sdk s n a (maxToolTimeout w) of
                Inl reason \<Rightarrow> Inl (Rejected reason)
              | Inr result \<Rightarrow> Inr result,
              w\<lparr>calls := calls w @ [CallTool s n a (maxToolTimeout w)]\<rparr>)))"
  by (auto simp: callTool_def Let_def split: sum.split)

lemma world_unnamed_eval:
  "world_unnamed =
     \<lparr>config = config_unnamed,
      sessions = [('''', stdio_session 0 '''')],
      activeSessions = [''''],
      toolServerMap = [(''y'', ''''), (''s'', '''')],
      maxToolTimeout = Num 10000,
      calls = [Connect (stdio_session 0 ''''), ListTools (stdio_session 0 '''')],
      console = []\<rparr>"
  by (simp add: world_unnamed_def config_unnamed_def op_defs obj_defs demo_defs)

text \<open>
  Claim C3 at a server whose name is the empty string. The configuration has one server,
  named \<^verbatim>\<open>""\<close>; bulk creation connects it and indexes its tools \<^verbatim>\<open>y\<close> and \<^verbatim>\<open>s\<close> under
  that name, and its session is in the registry. Still \<^verbatim>\<open>callTool\<close> for \<^verbatim>\<open>y\<close> fails
  with \<^verbatim>\<open>No server found for tool 'y'\<close>, the error for a name that is absent from the
  index, and the session is never called: the source tests \<^verbatim>\<open>!serverName\<close>, and the
  empty string is falsy.
\<close>

theorem callTool_unnamed_server:
  "createAllSessions demo_sdk (new_world config_unnamed) =
     (Inr [('''', stdio_session 0 '''')], world_unnamed)
   \<and> map_of (toolServerMap world_unnamed) ''y'' = Some ''''
   \<and> map_of (sessions world_unnamed) '''' = Some (stdio_session 0 '''')
   \<and> callTool demo_sdk ''y'' ''{}'' world_unnamed = (Inl (NoServerForTool ''y''), world_unnamed)"
proof -
  have 1: "createAllSessions demo_sdk (new_world config_unnamed) =
     (Inr [('''', stdio_session 0 '''')], world_unnamed)"
    unfolding world_unnamed_eval by (simp add: config_unnamed_def op_defs obj_defs demo_defs)
  have 2: "map_of (toolServerMap world_unnamed) ''y'' = Some ''''"
    "map_of (sessions world_unnamed) '''' = Some (stdio_session 0 '''')"
    by (simp_all add: world_unnamed_eval)
  have 3: "callTool demo_sdk ''y'' ''{}'' world_unnamed =
      (Inl (NoServerForTool ''y''), world_unnamed)"
    using 2(1) by (simp add: callTool_def)
  show ?thesis using 1 2 3 by simp
qed

end
